theory Spec2Isabelle
  imports Main
begin

section \<open>Strings and the platform's Unicode services\<close>

text \<open>
  A JavaScript string is modelled as the list of its Unicode code points, which is what
  the regular expressions with the \<^verbatim>\<open>u\<close> flag iterate over. The one regular
  expression without that flag (\<^verbatim>\<open>/[\s]/g\<close>) only matches code points of the Basic
  Multilingual Plane that are never half of a surrogate pair, so it sees the same
  matches on code units as on code points.
\<close>

type_synonym code_point = nat
type_synonym ustring = "code_point list"

text \<open>The Unicode general categories, as \<^verbatim>\<open>\p{..}\<close> reads them.\<close>

datatype general_cat =
  Lu | Ll | Lt | Lm | Lo | Mn | Mc | Me | Nd | Nl | No
  | Pc | Pd | Ps | Pe | Pi | Pf | Po
  | Sm | Sc | Sk | So
  | Zs | Zl | Zp | Cc | Cf | Cs | Co | Cn

text \<open>
  \<^verbatim>\<open>String.prototype.normalize('NFKC')\<close>, \<^verbatim>\<open>String.prototype.toLowerCase\<close> and the
  Unicode Character Database behind \<^verbatim>\<open>\p{P}\<close>, \<^verbatim>\<open>\p{S}\<close>, \<^verbatim>\<open>\p{So}\<close> belong to the
  JavaScript engine, not to the repository: they are parameters of the model.
\<close>

record unicode =
  normalize_NFKC :: "ustring \<Rightarrow> ustring"
  toLowerCase :: "ustring \<Rightarrow> ustring"
  general_category :: "code_point \<Rightarrow> general_cat"

text \<open>
  The Confusables table (\<^verbatim>\<open>utils/Confusables\<close>, read through \<^verbatim>\<open>Confusables.get\<close>) is a
  map from a one-code-point string to its replacement string. Its contents are not part
  of the sources at hand, so it is a parameter as well.
\<close>

type_synonym confusables = "code_point \<Rightarrow> ustring option"

subsection \<open>The character classes of the three regular expressions\<close>

definition is_P :: "unicode \<Rightarrow> code_point \<Rightarrow> bool" where
  "is_P U c = (general_category U c \<in> {Pc, Pd, Ps, Pe, Pi, Pf, Po})"

definition is_S :: "unicode \<Rightarrow> code_point \<Rightarrow> bool" where
  "is_S U c = (general_category U c \<in> {Sm, Sc, Sk, So})"

text \<open>\<^verbatim>\<open>\w\<close> without the \<^verbatim>\<open>i\<close> flag: \<^verbatim>\<open>[A-Za-z0-9_]\<close>.\<close>

definition is_word :: "code_point \<Rightarrow> bool" where
  "is_word c = ((48 \<le> c \<and> c \<le> 57) \<or> (65 \<le> c \<and> c \<le> 90) \<or> c = 95 \<or> (97 \<le> c \<and> c \<le> 122))"

text \<open>\<^verbatim>\<open>\s\<close>: ECMAScript's WhiteSpace and LineTerminator code points.\<close>

definition is_space :: "code_point \<Rightarrow> bool" where
  "is_space c = ((9 \<le> c \<and> c \<le> 13) \<or> c = 32 \<or> c = 160 \<or> c = 5760
      \<or> (8192 \<le> c \<and> c \<le> 8202) \<or> c = 8232 \<or> c = 8233 \<or> c = 8239 \<or> c = 8287
      \<or> c = 12288 \<or> c = 65279)"

text \<open>\<^verbatim>\<open>emojiRegex = /\p{So}/gu\<close>\<close>

definition emojiRegex :: "unicode \<Rightarrow> code_point \<Rightarrow> bool" where
  "emojiRegex U c = (general_category U c = So)"

text \<open>\<^verbatim>\<open>whitespaceRegex = /[\s]/g\<close>\<close>

definition whitespaceRegex :: "code_point \<Rightarrow> bool" where
  "whitespaceRegex c = is_space c"

text \<open>
  \<^verbatim>\<open>nonStandardCharsRegex = /[^\w\s\p{P}\p{S}..]/gu\<close>. The negated class ends with two
  literal characters, U+00CE and U+017E in the file (206 and 382): they are never
  matched either.
\<close>

definition nonStandardCharsRegex :: "unicode \<Rightarrow> code_point \<Rightarrow> bool" where
  "nonStandardCharsRegex U c =
     (\<not> (is_word c \<or> is_space c \<or> is_P U c \<or> is_S U c \<or> c = 206 \<or> c = 382))"

subsection \<open>\<^verbatim>\<open>String.prototype.replace\<close> with a global one-character pattern\<close>

text \<open>
  The string is scanned from left to right; every code point the class matches is
  replaced by what the replacer returns for it, the others are copied.
\<close>

fun replace_all :: "(code_point \<Rightarrow> bool) \<Rightarrow> (code_point \<Rightarrow> ustring) \<Rightarrow> ustring \<Rightarrow> ustring" where
  "replace_all cls f [] = []"
| "replace_all cls f (c # cs) = (if cls c then f c else [c]) @ replace_all cls f cs"

text \<open>
  The replacer \<^verbatim>\<open>char => Confusables.get(char) || char\<close>: \<^verbatim>\<open>||\<close> falls back to the
  character when the table has no entry and also when the entry is the empty string.
\<close>

definition confusable_or_char :: "confusables \<Rightarrow> code_point \<Rightarrow> ustring" where
  "confusable_or_char C c =
     (case C c of None \<Rightarrow> [c] | Some r \<Rightarrow> (if r = [] then [c] else r))"

section \<open>The name normalizer\<close>

definition sanitizeUsername :: "unicode \<Rightarrow> confusables \<Rightarrow> ustring \<Rightarrow> ustring" where
  "sanitizeUsername U C name =
     toLowerCase U
       (replace_all (nonStandardCharsRegex U) (confusable_or_char C)
         (replace_all whitespaceRegex (\<lambda>_. [])
           (replace_all (emojiRegex U) (\<lambda>_. [])
             (normalize_NFKC U name))))"

subsection \<open>ASCII facts about the platform\<close>

text \<open>The general category of the code points below 128, from the Unicode database.\<close>

definition ascii_general_category :: "code_point \<Rightarrow> general_cat" where
  "ascii_general_category c =
     (if c < 32 \<or> c = 127 then Cc
      else if c = 32 then Zs
      else if 48 \<le> c \<and> c \<le> 57 then Nd
      else if 65 \<le> c \<and> c \<le> 90 then Lu
      else if 97 \<le> c \<and> c \<le> 122 then Ll
      else if c = 36 then Sc
      else if c \<in> {43, 60, 61, 62, 124, 126} then Sm
      else if c \<in> {94, 96} then Sk
      else if c \<in> {40, 91, 123} then Ps
      else if c \<in> {41, 93, 125} then Pe
      else if c = 45 then Pd
      else if c = 95 then Pc
      else Po)"

definition ascii_lower :: "code_point \<Rightarrow> code_point" where
  "ascii_lower c = (if 65 \<le> c \<and> c \<le> 90 then c + 32 else c)"

definition is_ascii :: "ustring \<Rightarrow> bool" where
  "is_ascii s = list_all (\<lambda>c. c < 128) s"

text \<open>
  What every conforming engine does on ASCII: the general categories are those of the
  table above, NFKC leaves an ASCII string alone, and lower-casing maps \<^verbatim>\<open>A-Z\<close> to
  \<^verbatim>\<open>a-z\<close> one code point at a time.
\<close>

definition ascii_conformant :: "unicode \<Rightarrow> bool" where
  "ascii_conformant U =
     ((\<forall>c < 128. general_category U c = ascii_general_category c)
      \<and> (\<forall>s. is_ascii s \<longrightarrow> normalize_NFKC U s = s)
      \<and> (\<forall>s. is_ascii s \<longrightarrow> toLowerCase U s = map ascii_lower s))"

text \<open>
  An excerpt of the Unicode data: exact on ASCII, on the C1 controls U+0080..U+009F, on
  the Latin-1 letters U+00C0..U+00FF, on U+017D/U+017E, on the combining marks
  U+0300..U+036F, on U+FEFF and on U+1F525 (the fire emoji, category So); every other
  code point is treated as unassigned. Of NFKC it has the one composition the examples
  need, of "e" followed by the combining acute accent U+0301 into U+00E9; no other
  string of the examples is changed by NFKC. It is the concrete platform of the examples
  below, which only use strings over these code points.
\<close>

definition excerpt_category :: "code_point \<Rightarrow> general_cat" where
  "excerpt_category c =
     (if c < 128 then ascii_general_category c
      else if c \<le> 159 then Cc
      else if c = 215 \<or> c = 247 then Sm
      else if 192 \<le> c \<and> c \<le> 222 then Lu
      else if 223 \<le> c \<and> c \<le> 255 then Ll
      else if c = 381 then Lu
      else if c = 382 then Ll
      else if 768 \<le> c \<and> c \<le> 879 then Mn
      else if c = 65279 then Cf
      else if c = 128293 then So
      else Cn)"

fun excerpt_NFKC :: "ustring \<Rightarrow> ustring" where
  "excerpt_NFKC (a # b # cs) =
     (if a = 101 \<and> b = 769 then 233 # excerpt_NFKC cs else a # excerpt_NFKC (b # cs))"
| "excerpt_NFKC cs = cs"

definition excerpt_lower :: "code_point \<Rightarrow> code_point" where
  "excerpt_lower c =
     (if 65 \<le> c \<and> c \<le> 90 then c + 32
      else if 192 \<le> c \<and> c \<le> 222 \<and> c \<noteq> 215 then c + 32
      else if c = 381 then 382
      else c)"

definition excerpt_unicode :: unicode where
  "excerpt_unicode =
     \<lparr> normalize_NFKC = excerpt_NFKC,
       toLowerCase = map excerpt_lower,
       general_category = excerpt_category \<rparr>"

subsection \<open>The normalizer in the specification's words\<close>

text \<open>
  The code points with the Unicode property White_Space: what "whitespace code point"
  means outside JavaScript. The class \<^verbatim>\<open>\s\<close> differs from it in two code points: it
  lacks U+0085 (next line) and has U+FEFF (zero width no-break space).
\<close>

definition unicode_white_space :: "code_point \<Rightarrow> bool" where
  "unicode_white_space c = ((9 \<le> c \<and> c \<le> 13) \<or> c = 32 \<or> c = 133 \<or> c = 160 \<or> c = 5760
      \<or> (8192 \<le> c \<and> c \<le> 8202) \<or> c = 8232 \<or> c = 8233 \<or> c = 8239 \<or> c = 8287
      \<or> c = 12288)"

definition ecma_white_space :: "code_point \<Rightarrow> bool" where
  "ecma_white_space c = ((unicode_white_space c \<and> c \<noteq> 133) \<or> c = 65279)"

text \<open>
  The five steps as the specification words them, for a given notion of whitespace:
  NFKC, drop the Other Symbol code points, drop the whitespace code points, substitute
  the table's entry, when there is one, for every code point that is neither an ASCII
  word character nor punctuation nor a symbol, lower-case.
\<close>

definition spec_normalize ::
  "(code_point \<Rightarrow> bool) \<Rightarrow> unicode \<Rightarrow> confusables \<Rightarrow> ustring \<Rightarrow> ustring" where
  "spec_normalize white U C s =
     toLowerCase U
       (concat (map (\<lambda>c. if \<not> is_word c \<and> \<not> is_P U c \<and> \<not> is_S U c
                          then (case C c of None \<Rightarrow> [c] | Some r \<Rightarrow> r) else [c])
         (filter (\<lambda>c. \<not> white c)
           (filter (\<lambda>c. general_category U c \<noteq> So)
             (normalize_NFKC U s)))))"

text \<open>
  A table that stays out of the two places where the code does not follow the table: it
  has no entry for the two literal characters of the class, and no empty entry.
\<close>

definition table_within_class :: "confusables \<Rightarrow> bool" where
  "table_within_class C = (C 206 = None \<and> C 382 = None \<and> (\<forall>c. C c \<noteq> Some []))"

text \<open>
  ASCII text: printable ASCII and the ASCII whitespace characters. Two such strings are
  the same up to case and whitespace when they have the same \<open>ascii_fold\<close>.
\<close>

definition ascii_text :: "ustring \<Rightarrow> bool" where
  "ascii_text s = list_all (\<lambda>c. (9 \<le> c \<and> c \<le> 13) \<or> (32 \<le> c \<and> c \<le> 126)) s"

definition ascii_fold :: "ustring \<Rightarrow> ustring" where
  "ascii_fold s = map ascii_lower (filter (\<lambda>c. \<not> (9 \<le> c \<and> c \<le> 13) \<and> c \<noteq> 32) s)"

text \<open>
  What a second pass needs of the engine and of the table: a string is \<open>clean\<close> when it
  has no Other Symbol and no \<^verbatim>\<open>\s\<close> code point; lower-casing is idempotent and keeps a
  clean string clean; the table's entries are clean. \<open>substitution_fixes\<close> says that the
  substitution step leaves every code point of a string as it is.
\<close>

definition clean :: "unicode \<Rightarrow> ustring \<Rightarrow> bool" where
  "clean U x = list_all (\<lambda>c. \<not> emojiRegex U c \<and> \<not> whitespaceRegex c) x"

definition lower_well_behaved :: "unicode \<Rightarrow> bool" where
  "lower_well_behaved U =
     ((\<forall>x. toLowerCase U (toLowerCase U x) = toLowerCase U x)
      \<and> (\<forall>x. clean U x \<longrightarrow> clean U (toLowerCase U x)))"

definition table_clean :: "unicode \<Rightarrow> confusables \<Rightarrow> bool" where
  "table_clean U C = (\<forall>c r. C c = Some r \<longrightarrow> clean U r)"

definition substitution_fixes :: "unicode \<Rightarrow> confusables \<Rightarrow> ustring \<Rightarrow> bool" where
  "substitution_fixes U C x =
     list_all (\<lambda>c. nonStandardCharsRegex U c \<longrightarrow> confusable_or_char C c = [c]) x"

section \<open>The configuration store and the guild directory\<close>

type_synonym snowflake = string

text \<open>
  Modelled from the spec: the enum \<^verbatim>\<open>SpamFilterConfigType\<close>, whose file
  (\<^verbatim>\<open>types/spam-filter/SpamFilterConfigType\<close>) is not among the sources. The spec
  lists the object types ProtectedRole, AllowlistRole and AllowlistUser; the names are
  those the code uses.
\<close>

datatype SpamFilterConfigType = PROTECTED_ROLE | ALLOWLIST_ROLE | ALLOWLIST_USER

text \<open>\<^verbatim>\<open>SpamFilterConfig\<close>, without the \<^verbatim>\<open>_id\<close> the database assigns.\<close>

record SpamFilterConfig =
  objectType :: SpamFilterConfigType
  discordObjectId :: snowflake
  discordObjectName :: ustring
  discordServerId :: snowflake
  discordServerName :: ustring

text \<open>The fields of discord.js's \<^verbatim>\<open>User\<close>, \<^verbatim>\<open>GuildMember\<close>, \<^verbatim>\<open>Guild\<close> and
  \<^verbatim>\<open>Role\<close> that the code reads.\<close>

record user =
  user_id :: snowflake
  username :: ustring
  partial :: bool

record guild_member =
  member_user :: user
  nickname :: "ustring option"
  member_roles :: "snowflake list"
  bannable :: bool

record guild =
  guild_id :: snowflake
  guild_name :: ustring
  guild_members :: "guild_member list"

record role =
  role_id :: snowflake
  role_name :: ustring

text \<open>
  The world outside the process: the \<^verbatim>\<open>usernameSpamFilter\<close> collection, and whether a
  direct message to a user, and a ban of a user, go through.
\<close>

record discord =
  config_db :: "SpamFilterConfig list"
  dm_delivered :: "snowflake \<Rightarrow> bool"
  ban_executed :: "snowflake \<Rightarrow> bool"

datatype error = UnknownMember snowflake | UnknownUser snowflake | MongoError

datatype log_message =
  NotBannable snowflake
  | OnAllowlist snowflake
  | RoleOnAllowlist snowflake
  | UnableToMessage snowflake
  | AutoBanned snowflake
  | UnableToBan snowflake
  | DupKeyFound
  | FailedToStore
  | FailedUserUpdate

text \<open>What a run does to the outside, in the order it does it.\<close>

datatype event =
  Log log_message
  | FindOne SpamFilterConfigType snowflake snowflake
  | Find SpamFilterConfigType snowflake
  | MembersWithRoles snowflake "snowflake list"
  | FetchMember snowflake snowflake
  | SendDM snowflake snowflake snowflake
  | Ban snowflake

text \<open>
  Modelled from the spec: \<^verbatim>\<open>ServiceUtils.hasSomeRole\<close> (\<^verbatim>\<open>utils/ServiceUtils\<close> is not
  among the sources): the member "currently holds any role" of the list.
\<close>

definition hasSomeRole :: "guild_member \<Rightarrow> snowflake list \<Rightarrow> bool" where
  "hasSomeRole member roles = list_ex (\<lambda>r. r \<in> set (member_roles member)) roles"

text \<open>
  Modelled from the spec: \<^verbatim>\<open>ServiceUtils.getMembersWithRoles\<close>, the membership resolver:
  "given a guild and a set of role identifiers, returns the current members holding any
  of those roles".
\<close>

definition getMembersWithRoles :: "guild \<Rightarrow> snowflake list \<Rightarrow> guild_member list \<times> event list" where
  "getMembersWithRoles g roles =
     (filter (\<lambda>m. hasSomeRole m roles) (guild_members g), [MembersWithRoles (guild_id g) roles])"

text \<open>\<^verbatim>\<open>guild.members.fetch(id)\<close>: rejects when the guild has no member with that id.\<close>

definition members_fetch :: "guild \<Rightarrow> snowflake \<Rightarrow> (error + guild_member) \<times> event list" where
  "members_fetch g uid =
     (case find (\<lambda>m. user_id (member_user m) = uid) (guild_members g) of
        None \<Rightarrow> (Inl (UnknownMember uid), [FetchMember (guild_id g) uid])
      | Some m \<Rightarrow> (Inr m, [FetchMember (guild_id g) uid]))"

section \<open>The decision engine\<close>

definition memberOnAllowlist :: "discord \<Rightarrow> guild \<Rightarrow> guild_member \<Rightarrow> bool \<times> event list" where
  "memberOnAllowlist w g member =
     (let allowlist = find (\<lambda>r. objectType r = ALLOWLIST_USER
                              \<and> discordObjectId r = user_id (member_user member)
                              \<and> discordServerId r = guild_id g) (config_db w)
      in (if allowlist \<noteq> None then True else False,
          [FindOne ALLOWLIST_USER (user_id (member_user member)) (guild_id g)]))"

definition roleOnAllowlist :: "discord \<Rightarrow> guild \<Rightarrow> guild_member \<Rightarrow> bool \<times> event list" where
  "roleOnAllowlist w g member =
     (let allowlistRoleList = filter (\<lambda>r. objectType r = ALLOWLIST_ROLE
                                          \<and> discordServerId r = guild_id g) (config_db w);
          allowlistRoles = map discordObjectId allowlistRoleList
      in (if hasSomeRole member allowlistRoles then True else False,
          [Find ALLOWLIST_ROLE (guild_id g)]))"

definition getProtectedRolesForServer :: "discord \<Rightarrow> guild \<Rightarrow> snowflake list \<times> event list" where
  "getProtectedRolesForServer w g =
     (let protectedRolesList = filter (\<lambda>r. objectType r = PROTECTED_ROLE
                                           \<and> discordServerId r = guild_id g) (config_db w)
      in (map discordObjectId protectedRolesList, [Find PROTECTED_ROLE (guild_id g)]))"

definition skipUsernameSpamFilter :: "discord \<Rightarrow> guild \<Rightarrow> guild_member \<Rightarrow> bool \<times> event list" where
  "skipUsernameSpamFilter w g member =
     (if \<not> bannable member then (True, [Log (NotBannable (user_id (member_user member)))])
      else case memberOnAllowlist w g member of (onAllowlist, t1) \<Rightarrow>
        if onAllowlist then (True, t1 @ [Log (OnAllowlist (user_id (member_user member)))])
        else case roleOnAllowlist w g member of (roleAllowed, t2) \<Rightarrow>
          if roleAllowed
          then (True, t1 @ t2 @ [Log (RoleOnAllowlist (user_id (member_user member)))])
          else (False, t1 @ t2))"

text \<open>The two administrator contacts named in the warning message.\<close>

definition aboveAverageJoe_id :: snowflake where
  "aboveAverageJoe_id = ''198981821147381760''"

definition frogmonkee_id :: snowflake where
  "frogmonkee_id = ''197852493537869824''"

text \<open>
  The matching branch: both contacts are fetched (a rejection leaves the function), the
  warning is sent and its failure logged, then the ban is called and its outcome logged.
\<close>

definition warn_and_ban :: "discord \<Rightarrow> guild \<Rightarrow> guild_member \<Rightarrow> (error + bool) \<times> event list" where
  "warn_and_ban w g member =
     (let uid = user_id (member_user member) in
      case members_fetch g aboveAverageJoe_id of
        (Inl e, t1) \<Rightarrow> (Inl e, t1)
      | (Inr aboveAverageJoe, t1) \<Rightarrow>
          (case members_fetch g frogmonkee_id of
             (Inl e, t2) \<Rightarrow> (Inl e, t1 @ t2)
           | (Inr frogmonkee, t2) \<Rightarrow>
               (Inr True,
                t1 @ t2
                @ [SendDM uid (user_id (member_user aboveAverageJoe)) (user_id (member_user frogmonkee))]
                @ (if dm_delivered w uid then [] else [Log (UnableToMessage uid)])
                @ [Ban uid]
                @ (if ban_executed w uid then [Log (AutoBanned uid)] else [Log (UnableToBan uid)]))))"

text \<open>
  A nickname is \<^verbatim>\<open>null\<close> or a string; \<^verbatim>\<open>if (member.nickname)\<close> and
  \<^verbatim>\<open>nickname && ...\<close> are false for \<^verbatim>\<open>null\<close> and for the empty string.
\<close>

definition runUsernameSpamFilter ::
  "unicode \<Rightarrow> confusables \<Rightarrow> discord \<Rightarrow> guild \<Rightarrow> guild_member \<Rightarrow> (error + bool) \<times> event list" where
  "runUsernameSpamFilter U C w g member =
     (case skipUsernameSpamFilter w g member of (skip, t0) \<Rightarrow>
      if skip then (Inr False, t0)
      else case getProtectedRolesForServer w g of (protectedRoles, t1) \<Rightarrow>
        if length protectedRoles = 0 then (Inr False, t0 @ t1)
        else case getMembersWithRoles g protectedRoles of (protectedMembers, t2) \<Rightarrow>
          let protectedNames = map (\<lambda>protectedMember.
                  case nickname protectedMember of
                    None \<Rightarrow> sanitizeUsername U C (username (member_user protectedMember))
                  | Some n \<Rightarrow>
                      if n \<noteq> [] then sanitizeUsername U C n
                      else sanitizeUsername U C (username (member_user protectedMember)))
                protectedMembers;
              nickname' = (case nickname member of
                             None \<Rightarrow> None
                           | Some n \<Rightarrow> if n \<noteq> [] then Some (sanitizeUsername U C n) else None);
              username' = sanitizeUsername U C (username (member_user member))
          in if (case nickname' of None \<Rightarrow> False
                 | Some n \<Rightarrow> n \<noteq> [] \<and> n \<in> set protectedNames)
                \<or> username' \<in> set protectedNames
             then (case warn_and_ban w g member of (r, t3) \<Rightarrow> (r, t0 @ t1 @ t2 @ t3))
             else (Inr False, t0 @ t1 @ t2))"

section \<open>The userUpdate event handler\<close>

text \<open>
  \<^verbatim>\<open>User.fetch\<close> of a partial user, and the two helpers of \<^verbatim>\<open>ServiceUtils\<close> the handler
  calls (not among the sources, and not described by the spec): they are parameters.
  \<^verbatim>\<open>getGuildMemberFromUser\<close> is already applied to \<^verbatim>\<open>process.env.DISCORD_SERVER_ID\<close>.
\<close>

record handler_env =
  fetchUser :: "snowflake \<Rightarrow> error + user"
  getGuildMemberFromUser :: "user \<Rightarrow> error + guild \<times> guild_member"
  isBanklessDAO :: "guild \<Rightarrow> bool"

definition resolve_partial :: "handler_env \<Rightarrow> user \<Rightarrow> error + user" where
  "resolve_partial env u = (if partial u then fetchUser env (user_id u) else Inr u)"

text \<open>
  \<^verbatim>\<open>execute(oldUser, newUser)\<close>. The first component is what the handler got back from
  \<^verbatim>\<open>runUsernameSpamFilter\<close>, \<open>None\<close> when it did not call it; the second is what it did to
  the outside. Whatever is thrown inside the \<^verbatim>\<open>try\<close> is logged.
\<close>

definition execute ::
  "unicode \<Rightarrow> confusables \<Rightarrow> discord \<Rightarrow> handler_env \<Rightarrow> user \<Rightarrow> user
     \<Rightarrow> (error + bool) option \<times> event list" where
  "execute U C w env oldUser newUser =
     (case resolve_partial env oldUser of
        Inl e \<Rightarrow> (None, [Log FailedUserUpdate])
      | Inr oldUser' \<Rightarrow>
          (case resolve_partial env newUser of
             Inl e \<Rightarrow> (None, [Log FailedUserUpdate])
           | Inr newUser' \<Rightarrow>
               if username oldUser' \<noteq> username newUser' then
                 (case getGuildMemberFromUser env newUser' of
                    Inl e \<Rightarrow> (None, [Log FailedUserUpdate])
                  | Inr (g, guildMember) \<Rightarrow>
                      if isBanklessDAO env g then
                        (case runUsernameSpamFilter U C w g guildMember of
                           (Inl e, t) \<Rightarrow> (Some (Inl e), t @ [Log FailedUserUpdate])
                         | (Inr banned, t) \<Rightarrow> (Some (Inr banned), t))
                      else (None, []))
               else (None, [])))"

section \<open>Configuring the store\<close>

text \<open>
  Modelled from the spec: the uniqueness the storage layer enforces: "the tuple
  (objectType, discordObjectId, discordServerId) is unique", "the Config Store enforces
  per-record uniqueness at the storage layer". The index itself is set up outside the
  sources at hand.
\<close>

definition config_key :: "SpamFilterConfig \<Rightarrow> SpamFilterConfigType \<times> snowflake \<times> snowflake" where
  "config_key r = (objectType r, discordObjectId r, discordServerId r)"

text \<open>
  The driver's \<^verbatim>\<open>insertMany(docs, {ordered: false})\<close> on a collection with that unique
  index: every document is tried, in order; one whose key is already stored is rejected
  with a duplicate-key write error and the others are still inserted. The result is the
  new collection and the rejected documents.
\<close>

fun insert_unordered ::
  "SpamFilterConfig list \<Rightarrow> SpamFilterConfig list \<Rightarrow> SpamFilterConfig list \<times> SpamFilterConfig list" where
  "insert_unordered coll [] = (coll, [])"
| "insert_unordered coll (d # ds) =
     (if config_key d \<in> set (map config_key coll)
      then (case insert_unordered coll ds of (coll', rejected) \<Rightarrow> (coll', d # rejected))
      else insert_unordered (coll @ [d]) ds)"

datatype mongo_error = BulkWriteError nat | InvalidOperation

text \<open>
  With no document the driver refuses the call; with write errors it rejects with a
  \<^verbatim>\<open>BulkWriteError\<close> carrying the code of the first one (11000, duplicate key); otherwise
  it resolves with a result object, the number of inserted documents here.
\<close>

definition insertMany ::
  "SpamFilterConfig list \<Rightarrow> SpamFilterConfig list \<Rightarrow> (mongo_error + nat option) \<times> SpamFilterConfig list" where
  "insertMany coll docs =
     (if docs = [] then (Inl InvalidOperation, coll)
      else case insert_unordered coll docs of (coll', rejected) \<Rightarrow>
        if rejected = [] then (Inr (Some (length docs)), coll')
        else (Inl (BulkWriteError 11000), coll'))"

text \<open>
  \<^verbatim>\<open>addRolesToUsernameSpamFilter\<close> (the same in \<^verbatim>\<open>ConfigSpamFilter.ts\<close> and
  \<^verbatim>\<open>PublishBounty.ts\<close>): the outcome (\<open>Inl\<close> is a thrown error), the collection
  afterwards and what was logged.
\<close>

definition addRolesToUsernameSpamFilter ::
  "guild \<Rightarrow> SpamFilterConfig list \<Rightarrow> role list \<Rightarrow> SpamFilterConfigType
     \<Rightarrow> (error + unit) \<times> SpamFilterConfig list \<times> log_message list" where
  "addRolesToUsernameSpamFilter g coll roles objType =
     (let usernameSpamFilterList = map (\<lambda>role.
            \<lparr> objectType = objType,
              discordObjectId = role_id role,
              discordObjectName = role_name role,
              discordServerId = guild_id g,
              discordServerName = guild_name g \<rparr>) roles
      in case insertMany coll usernameSpamFilterList of
           (Inl e, coll') \<Rightarrow>
             (Inr (), coll',
              (if e = BulkWriteError 11000 then [DupKeyFound] else []) @ [FailedToStore])
         | (Inr result, coll') \<Rightarrow>
             (if result = None then (Inl MongoError, coll', []) else (Inr (), coll', [])))"

section \<open>The claims' vocabulary\<close>

text \<open>An ASCII literal as a string of code points.\<close>

definition ustr :: "string \<Rightarrow> ustring" where
  "ustr s = map of_char s"

text \<open>
  The notions the claims are worded in, written from their words and independently of the
  engine's code: the display name (nickname if set, else username), holding a protected
  or allowlisted role, the set of protected canonical names, the match as the claim
  states it (\<open>claimed_name_match\<close>) and as the engine decides it (\<open>name_match\<close>, where a
  nickname whose canonical form is empty does not count).
\<close>

definition display_name :: "guild_member \<Rightarrow> ustring" where
  "display_name m =
     (case nickname m of
        None \<Rightarrow> username (member_user m)
      | Some n \<Rightarrow> if n = [] then username (member_user m) else n)"

definition holds_protected_role :: "discord \<Rightarrow> guild \<Rightarrow> guild_member \<Rightarrow> bool" where
  "holds_protected_role w g m =
     (\<exists>r \<in> set (config_db w). objectType r = PROTECTED_ROLE \<and> discordServerId r = guild_id g
        \<and> discordObjectId r \<in> set (member_roles m))"

definition protected_names :: "unicode \<Rightarrow> confusables \<Rightarrow> discord \<Rightarrow> guild \<Rightarrow> ustring set" where
  "protected_names U C w g =
     set (map (\<lambda>m. sanitizeUsername U C (display_name m))
            (filter (holds_protected_role w g) (guild_members g)))"

definition protection_configured :: "discord \<Rightarrow> guild \<Rightarrow> bool" where
  "protection_configured w g =
     (\<exists>r \<in> set (config_db w). objectType r = PROTECTED_ROLE \<and> discordServerId r = guild_id g)"

definition on_user_allowlist :: "discord \<Rightarrow> guild \<Rightarrow> guild_member \<Rightarrow> bool" where
  "on_user_allowlist w g m =
     (\<exists>r \<in> set (config_db w). objectType r = ALLOWLIST_USER
        \<and> discordObjectId r = user_id (member_user m) \<and> discordServerId r = guild_id g)"

definition holds_allowlist_role :: "discord \<Rightarrow> guild \<Rightarrow> guild_member \<Rightarrow> bool" where
  "holds_allowlist_role w g m =
     (\<exists>r \<in> set (config_db w). objectType r = ALLOWLIST_ROLE \<and> discordServerId r = guild_id g
        \<and> discordObjectId r \<in> set (member_roles m))"

definition contacts_present :: "guild \<Rightarrow> bool" where
  "contacts_present g =
     (aboveAverageJoe_id \<in> set (map (\<lambda>m. user_id (member_user m)) (guild_members g))
      \<and> frogmonkee_id \<in> set (map (\<lambda>m. user_id (member_user m)) (guild_members g)))"

definition claimed_name_match :: "unicode \<Rightarrow> confusables \<Rightarrow> discord \<Rightarrow> guild \<Rightarrow> guild_member \<Rightarrow> bool" where
  "claimed_name_match U C w g m =
     ((case nickname m of None \<Rightarrow> False
       | Some n \<Rightarrow> n \<noteq> [] \<and> sanitizeUsername U C n \<in> protected_names U C w g)
      \<or> sanitizeUsername U C (username (member_user m)) \<in> protected_names U C w g)"

definition name_match :: "unicode \<Rightarrow> confusables \<Rightarrow> discord \<Rightarrow> guild \<Rightarrow> guild_member \<Rightarrow> bool" where
  "name_match U C w g m =
     ((case nickname m of None \<Rightarrow> False
       | Some n \<Rightarrow> n \<noteq> [] \<and> sanitizeUsername U C n \<noteq> []
                  \<and> sanitizeUsername U C n \<in> protected_names U C w g)
      \<or> sanitizeUsername U C (username (member_user m)) \<in> protected_names U C w g)"

definition no_dm_or_ban :: "event list \<Rightarrow> bool" where
  "no_dm_or_ban t = list_all (\<lambda>e. case e of SendDM _ _ _ \<Rightarrow> False | Ban _ \<Rightarrow> False | _ \<Rightarrow> True) t"

definition new_key :: "guild \<Rightarrow> SpamFilterConfigType \<Rightarrow> role \<Rightarrow> SpamFilterConfigType \<times> snowflake \<times> snowflake" where
  "new_key g objType r = (objType, role_id r, guild_id g)"

section \<open>Example data\<close>

text \<open>
  A guild with the two administrator contacts, both holding the protected role 900, and
  candidates whose names collide with theirs.
\<close>

definition mk_member :: "snowflake \<Rightarrow> ustring \<Rightarrow> ustring option \<Rightarrow> snowflake list \<Rightarrow> bool \<Rightarrow> guild_member" where
  "mk_member uid name nick rs b =
     \<lparr> member_user = \<lparr> user_id = uid, username = name, partial = False \<rparr>,
       nickname = nick, member_roles = rs, bannable = b \<rparr>"

definition example_guild :: "guild_member list \<Rightarrow> guild" where
  "example_guild ms =
     \<lparr> guild_id = ''851552281249972254'', guild_name = ustr ''Bankless DAO'', guild_members = ms \<rparr>"

definition example_record :: "SpamFilterConfigType \<Rightarrow> snowflake \<Rightarrow> SpamFilterConfig" where
  "example_record ty oid =
     \<lparr> objectType = ty, discordObjectId = oid, discordObjectName = ustr ''Level 2'',
       discordServerId = ''851552281249972254'', discordServerName = ustr ''Bankless DAO'' \<rparr>"

definition example_world :: "SpamFilterConfig list \<Rightarrow> bool \<Rightarrow> bool \<Rightarrow> discord" where
  "example_world db dm ban = \<lparr> config_db = db, dm_delivered = (\<lambda>_. dm), ban_executed = (\<lambda>_. ban) \<rparr>"

definition joe :: guild_member where
  "joe = mk_member aboveAverageJoe_id (ustr ''AboveAverageJoe'') None [''900''] False"

definition frog :: guild_member where
  "frog = mk_member frogmonkee_id (ustr ''frogmonkee'') (Some (ustr ''Frogmonkee'')) [''900''] False"

definition fire_frog :: guild_member where
  "fire_frog = mk_member frogmonkee_id (ustr ''frogmonkee'') (Some [128293]) [''900''] False"

definition impostor :: guild_member where
  "impostor = mk_member ''555'' (ustr ''FROG MONKEE'') None [] True"

definition fire_nick :: guild_member where
  "fire_nick = mk_member ''556'' (ustr ''bob'') (Some [128293]) [] True"

definition fire_user :: guild_member where
  "fire_user = mk_member ''557'' [128293] None [] True"

definition example_role :: "snowflake \<Rightarrow> role" where
  "example_role rid = \<lparr> role_id = rid, role_name = ustr ''Level 2'' \<rparr>"

definition example_env :: "guild \<Rightarrow> guild_member \<Rightarrow> bool \<Rightarrow> handler_env" where
  "example_env g m bankless =
     \<lparr> fetchUser = (\<lambda>uid. Inl (UnknownUser uid)),
       getGuildMemberFromUser = (\<lambda>u. if user_id u = user_id (member_user m) then Inr (g, m)
                                       else Inl (UnknownMember (user_id u))),
       isBanklessDAO = (\<lambda>_. bankless) \<rparr>"

section \<open>Evaluation and helper lemmas\<close>

lemmas example_defs =
  mk_member_def example_guild_def example_record_def example_world_def joe_def frog_def
  fire_frog_def impostor_def fire_nick_def fire_user_def ustr_def
  example_role_def example_env_def
  aboveAverageJoe_id_def frogmonkee_id_def

lemmas unicode_defs =
  sanitizeUsername_def excerpt_unicode_def emojiRegex_def whitespaceRegex_def is_space_def
  nonStandardCharsRegex_def is_word_def is_P_def is_S_def excerpt_category_def
  excerpt_lower_def confusable_or_char_def ascii_general_category_def

lemmas engine_defs =
  runUsernameSpamFilter_def skipUsernameSpamFilter_def memberOnAllowlist_def
  roleOnAllowlist_def getProtectedRolesForServer_def getMembersWithRoles_def
  hasSomeRole_def warn_and_ban_def members_fetch_def Let_def

lemmas claim_defs =
  display_name_def holds_protected_role_def protected_names_def protection_configured_def
  on_user_allowlist_def holds_allowlist_role_def contacts_present_def claimed_name_match_def
  name_match_def no_dm_or_ban_def

subsection \<open>The normalizer\<close>

lemma excerpt_NFKC_ascii: "is_ascii s \<Longrightarrow> excerpt_NFKC s = s"
  by (induction s rule: excerpt_NFKC.induct) (auto simp: is_ascii_def)

lemma excerpt_unicode_ascii_conformant: "ascii_conformant excerpt_unicode"
proof -
  have "map excerpt_lower s = map ascii_lower s" if "is_ascii s" for s
    using that by (induction s) (auto simp: is_ascii_def excerpt_lower_def ascii_lower_def)
  then show ?thesis
    by (simp add: ascii_conformant_def excerpt_unicode_def excerpt_category_def
          excerpt_NFKC_ascii)
qed

lemma replace_all_concat_map:
  "replace_all cls f s = concat (map (\<lambda>c. if cls c then f c else [c]) s)"
  by (induction s) simp_all

lemma replace_all_delete: "replace_all cls (\<lambda>_. []) s = filter (\<lambda>c. \<not> cls c) s"
  by (induction s) simp_all

lemma replace_all_unmatched: "(\<And>c. c \<in> set s \<Longrightarrow> \<not> cls c) \<Longrightarrow> replace_all cls f s = s"
  by (induction s) simp_all

lemma ascii_category_not_So: "ascii_general_category c \<noteq> So"
  by (simp add: ascii_general_category_def)

lemma ascii_visible_standard:
  assumes "33 \<le> c" "c \<le> 126" "general_category U c = ascii_general_category c"
  shows "\<not> nonStandardCharsRegex U c"
  using assms
  by (auto simp: nonStandardCharsRegex_def is_word_def is_P_def is_S_def ascii_general_category_def)

lemma is_space_ecma: "is_space c = ecma_white_space c"
  by (auto simp: is_space_def ecma_white_space_def unicode_white_space_def)

lemma ascii_text_is_ascii: "ascii_text s \<Longrightarrow> is_ascii s"
  by (induction s) (auto simp: ascii_text_def is_ascii_def)

lemma ascii_text_space:
  "(9 \<le> c \<and> c \<le> 13) \<or> (32 \<le> c \<and> c \<le> 126) \<Longrightarrow>
     is_space c \<longleftrightarrow> (9 \<le> c \<and> c \<le> 13) \<or> c = 32"
  by (auto simp: is_space_def)

lemma sanitize_ascii_text:
  assumes U: "ascii_conformant U" and s: "ascii_text s"
  shows "sanitizeUsername U C s = ascii_fold s"
proof -
  let ?t = "filter (\<lambda>c. \<not> (9 \<le> c \<and> c \<le> 13) \<and> c \<noteq> 32) s"
  have asc: "is_ascii s" using s by (rule ascii_text_is_ascii)
  have cat: "general_category U c = ascii_general_category c" if "c \<in> set s" for c
    using U asc that by (auto simp: ascii_conformant_def is_ascii_def list_all_iff)
  have rng: "(9 \<le> c \<and> c \<le> 13) \<or> (32 \<le> c \<and> c \<le> 126)" if "c \<in> set s" for c
    using s that by (auto simp: ascii_text_def list_all_iff)
  have n: "normalize_NFKC U s = s" using U asc by (simp add: ascii_conformant_def)
  have e: "replace_all (emojiRegex U) (\<lambda>_. []) s = s"
    by (rule replace_all_unmatched) (simp add: emojiRegex_def cat ascii_category_not_So)
  have w: "replace_all whitespaceRegex (\<lambda>_. []) s = ?t"
    unfolding replace_all_delete whitespaceRegex_def
    by (rule filter_cong) (use rng ascii_text_space in auto)
  have c: "replace_all (nonStandardCharsRegex U) (confusable_or_char C) ?t = ?t"
  proof (rule replace_all_unmatched)
    fix c assume "c \<in> set ?t"
    then have *: "c \<in> set s" "\<not> (9 \<le> c \<and> c \<le> 13)" "c \<noteq> 32" by auto
    with rng[of c] have "33 \<le> c" "c \<le> 126" by auto
    then show "\<not> nonStandardCharsRegex U c" using cat[OF *(1)] by (rule ascii_visible_standard)
  qed
  have "is_ascii ?t" using asc by (auto simp: is_ascii_def list_all_iff)
  then have l: "toLowerCase U ?t = map ascii_lower ?t" using U by (simp add: ascii_conformant_def)
  show ?thesis unfolding sanitizeUsername_def ascii_fold_def n e w c l ..
qed

lemma sanitize_whitespace_blind:
  assumes "filter (\<lambda>c. \<not> is_space c) (normalize_NFKC U s)
         = filter (\<lambda>c. \<not> is_space c) (normalize_NFKC U t)"
  shows "sanitizeUsername U C s = sanitizeUsername U C t"
proof -
  have sw: "filter (\<lambda>c. \<not> is_space c) (filter (\<lambda>c. \<not> emojiRegex U c) x)
      = filter (\<lambda>c. \<not> emojiRegex U c) (filter (\<lambda>c. \<not> is_space c) x)" for x
    by (induction x) auto
  have r: "replace_all whitespaceRegex (\<lambda>_. [])
             (replace_all (emojiRegex U) (\<lambda>_. []) (normalize_NFKC U x))
      = filter (\<lambda>c. \<not> emojiRegex U c) (filter (\<lambda>c. \<not> is_space c) (normalize_NFKC U x))" for x
    unfolding replace_all_delete whitespaceRegex_def by (rule sw)
  show ?thesis
    unfolding sanitizeUsername_def r assms ..
qed

lemma clean_filtered:
  "clean U (replace_all whitespaceRegex (\<lambda>_. []) (replace_all (emojiRegex U) (\<lambda>_. []) x))"
  by (auto simp: clean_def replace_all_delete list_all_iff)

lemma clean_substituted:
  assumes "table_clean U C" and "clean U x"
  shows "clean U (replace_all (nonStandardCharsRegex U) (confusable_or_char C) x)"
  using assms(2)
proof (induction x)
  case Nil
  then show ?case by (simp add: clean_def)
next
  case (Cons c cs)
  have "clean U (confusable_or_char C c)"
  proof (cases "C c")
    case None
    with Cons.prems show ?thesis by (simp add: confusable_or_char_def clean_def)
  next
    case (Some r)
    with assms(1) have "clean U r" by (auto simp: table_clean_def)
    with Some Cons.prems show ?thesis by (simp add: confusable_or_char_def clean_def)
  qed
  moreover have "clean U cs" "clean U [c]" using Cons.prems by (simp_all add: clean_def)
  ultimately show ?case using Cons.IH by (simp add: clean_def)
qed

lemma clean_sanitized:
  assumes "lower_well_behaved U" and "table_clean U C"
  shows "clean U (sanitizeUsername U C s)"
  unfolding sanitizeUsername_def
  using assms(1) clean_substituted[OF assms(2) clean_filtered]
  by (simp add: lower_well_behaved_def)

lemma clean_unchanged:
  assumes "clean U x"
  shows "replace_all whitespaceRegex (\<lambda>_. []) (replace_all (emojiRegex U) (\<lambda>_. []) x) = x"
proof -
  have "replace_all (emojiRegex U) (\<lambda>_. []) x = x"
    by (rule replace_all_unmatched) (use assms in \<open>auto simp: clean_def list_all_iff\<close>)
  moreover have "replace_all whitespaceRegex (\<lambda>_. []) x = x"
    by (rule replace_all_unmatched) (use assms in \<open>auto simp: clean_def list_all_iff\<close>)
  ultimately show ?thesis by simp
qed

lemma substitution_fixed:
  "substitution_fixes U C x \<Longrightarrow>
     replace_all (nonStandardCharsRegex U) (confusable_or_char C) x = x"
  by (induction x) (auto simp: substitution_fixes_def)

lemma excerpt_lower_range:
  "excerpt_lower c = c \<or> (97 \<le> excerpt_lower c \<and> excerpt_lower c \<le> 122)
   \<or> (224 \<le> excerpt_lower c \<and> excerpt_lower c \<le> 254) \<or> excerpt_lower c = 382"
  by (simp add: excerpt_lower_def)

lemma excerpt_small_letters:
  assumes "(97 \<le> d \<and> d \<le> 122) \<or> (224 \<le> d \<and> d \<le> 254) \<or> d = 382"
  shows "excerpt_category d \<noteq> So" and "\<not> is_space d"
proof -
  from assms show "\<not> is_space d" by (auto simp: is_space_def)
  from assms consider "97 \<le> d \<and> d \<le> 122" | "224 \<le> d \<and> d \<le> 254" | "d = 382" by blast
  then show "excerpt_category d \<noteq> So"
  proof cases
    case 1
    then show ?thesis by (simp add: excerpt_category_def ascii_general_category_def)
  next
    case 2
    then show ?thesis by (simp add: excerpt_category_def)
  next
    case 3
    then show ?thesis by (simp add: excerpt_category_def)
  qed
qed

lemma excerpt_lower_well_behaved: "lower_well_behaved excerpt_unicode"
proof -
  have i: "excerpt_lower (excerpt_lower c) = excerpt_lower c" for c
    by (simp add: excerpt_lower_def)
  have k: "\<not> emojiRegex excerpt_unicode (excerpt_lower c) \<and> \<not> whitespaceRegex (excerpt_lower c)"
    if "\<not> emojiRegex excerpt_unicode c \<and> \<not> whitespaceRegex c" for c
  proof (cases "excerpt_lower c = c")
    case True
    with that show ?thesis by simp
  next
    case False
    with excerpt_lower_range[of c]
    have "(97 \<le> excerpt_lower c \<and> excerpt_lower c \<le> 122)
        \<or> (224 \<le> excerpt_lower c \<and> excerpt_lower c \<le> 254) \<or> excerpt_lower c = 382"
      by blast
    from excerpt_small_letters[OF this] show ?thesis
      by (simp add: emojiRegex_def excerpt_unicode_def whitespaceRegex_def)
  qed
  have "clean excerpt_unicode (map excerpt_lower x)" if "clean excerpt_unicode x" for x
    using that k by (induction x) (simp_all add: clean_def)
  with i show ?thesis
    by (simp add: lower_well_behaved_def excerpt_unicode_def)
qed


subsection \<open>The engine\<close>

lemma find_found_iff: "find P xs \<noteq> None \<longleftrightarrow> (\<exists>x \<in> set xs. P x)"
  by (induction xs) simp_all

lemma memberOnAllowlist_iff: "fst (memberOnAllowlist w g m) = on_user_allowlist w g m"
  by (simp add: memberOnAllowlist_def on_user_allowlist_def Let_def find_found_iff del: not_None_eq)

lemma memberOnAllowlist_trace:
  "snd (memberOnAllowlist w g m) = [FindOne ALLOWLIST_USER (user_id (member_user m)) (guild_id g)]"
  by (simp add: memberOnAllowlist_def Let_def)

lemma roleOnAllowlist_iff: "fst (roleOnAllowlist w g m) = holds_allowlist_role w g m"
  by (auto simp: roleOnAllowlist_def holds_allowlist_role_def hasSomeRole_def Let_def list_ex_iff)

lemma roleOnAllowlist_trace: "snd (roleOnAllowlist w g m) = [Find ALLOWLIST_ROLE (guild_id g)]"
  by (simp add: roleOnAllowlist_def Let_def)

lemma skip_cases:
  "skipUsernameSpamFilter w g m =
     (if \<not> bannable m then (True, [Log (NotBannable (user_id (member_user m)))])
      else if on_user_allowlist w g m
        then (True, [FindOne ALLOWLIST_USER (user_id (member_user m)) (guild_id g),
                     Log (OnAllowlist (user_id (member_user m)))])
      else if holds_allowlist_role w g m
        then (True, [FindOne ALLOWLIST_USER (user_id (member_user m)) (guild_id g),
                     Find ALLOWLIST_ROLE (guild_id g),
                     Log (RoleOnAllowlist (user_id (member_user m)))])
      else (False, [FindOne ALLOWLIST_USER (user_id (member_user m)) (guild_id g),
                    Find ALLOWLIST_ROLE (guild_id g)]))"
  using memberOnAllowlist_iff[of w g m] memberOnAllowlist_trace[of w g m]
        roleOnAllowlist_iff[of w g m] roleOnAllowlist_trace[of w g m]
  by (cases "memberOnAllowlist w g m"; cases "roleOnAllowlist w g m")
     (simp add: skipUsernameSpamFilter_def)

lemma skip_trace_quiet: "no_dm_or_ban (snd (skipUsernameSpamFilter w g m))"
  by (simp add: skip_cases no_dm_or_ban_def)

lemma protected_roles_empty_iff:
  "fst (getProtectedRolesForServer w g) = [] \<longleftrightarrow> \<not> protection_configured w g"
  by (auto simp: getProtectedRolesForServer_def protection_configured_def Let_def filter_empty_conv)

lemma protected_roles_trace:
  "snd (getProtectedRolesForServer w g) = [Find PROTECTED_ROLE (guild_id g)]"
  by (simp add: getProtectedRolesForServer_def Let_def)

lemma hasSomeRole_protected:
  "hasSomeRole m (fst (getProtectedRolesForServer w g)) = holds_protected_role w g m"
  by (auto simp: getProtectedRolesForServer_def holds_protected_role_def hasSomeRole_def Let_def list_ex_iff)

lemma protectedNames_set:
  "set (map (\<lambda>protectedMember.
                  case nickname protectedMember of
                    None \<Rightarrow> sanitizeUsername U C (username (member_user protectedMember))
                  | Some n \<Rightarrow>
                      if n \<noteq> [] then sanitizeUsername U C n
                      else sanitizeUsername U C (username (member_user protectedMember)))
         (fst (getMembersWithRoles g (fst (getProtectedRolesForServer w g)))))
   = protected_names U C w g"
proof -
  have "(case nickname pm of
           None \<Rightarrow> sanitizeUsername U C (username (member_user pm))
         | Some n \<Rightarrow> if n \<noteq> [] then sanitizeUsername U C n
                     else sanitizeUsername U C (username (member_user pm)))
        = sanitizeUsername U C (display_name pm)" for pm
    by (simp add: display_name_def split: option.splits)
  then show ?thesis
    by (simp add: getMembersWithRoles_def protected_names_def hasSomeRole_protected)
qed

lemma run_evaluated:
  assumes "fst (skipUsernameSpamFilter w g m) = False" and "protection_configured w g"
  shows "runUsernameSpamFilter U C w g m =
     (if name_match U C w g m
      then (fst (warn_and_ban w g m),
            snd (skipUsernameSpamFilter w g m)
            @ [Find PROTECTED_ROLE (guild_id g),
               MembersWithRoles (guild_id g) (fst (getProtectedRolesForServer w g))]
            @ snd (warn_and_ban w g m))
      else (Inr False,
            snd (skipUsernameSpamFilter w g m)
            @ [Find PROTECTED_ROLE (guild_id g),
               MembersWithRoles (guild_id g) (fst (getProtectedRolesForServer w g))]))"
proof -
  obtain t0 where s: "skipUsernameSpamFilter w g m = (False, t0)"
    using assms(1) by (cases "skipUsernameSpamFilter w g m") simp
  obtain rs where p: "getProtectedRolesForServer w g = (rs, [Find PROTECTED_ROLE (guild_id g)])"
    using protected_roles_trace[of w g] by (cases "getProtectedRolesForServer w g") simp
  have rs: "rs \<noteq> []" using protected_roles_empty_iff[of w g] assms(2) p by simp
  obtain ms where q: "getMembersWithRoles g rs = (ms, [MembersWithRoles (guild_id g) rs])"
    by (simp add: getMembersWithRoles_def)
  have names: "set (map (\<lambda>protectedMember.
                  case nickname protectedMember of
                    None \<Rightarrow> sanitizeUsername U C (username (member_user protectedMember))
                  | Some n \<Rightarrow>
                      if n \<noteq> [] then sanitizeUsername U C n
                      else sanitizeUsername U C (username (member_user protectedMember))) ms)
        = protected_names U C w g"
    using protectedNames_set[of U C g w] p q by simp
  obtain r t3 where wb: "warn_and_ban w g m = (r, t3)" by (cases "warn_and_ban w g m")
  show ?thesis
    using rs names
    by (simp add: runUsernameSpamFilter_def s p q wb Let_def name_match_def del: set_map
          split: option.splits)
qed


lemma members_fetch_found:
  assumes "uid \<in> set (map (\<lambda>m. user_id (member_user m)) (guild_members g))"
  shows "\<exists>m. members_fetch g uid = (Inr m, [FetchMember (guild_id g) uid])
             \<and> user_id (member_user m) = uid"
proof -
  from assms have "find (\<lambda>m. user_id (member_user m) = uid) (guild_members g) \<noteq> None"
    unfolding find_found_iff by auto
  then obtain m where m: "find (\<lambda>m. user_id (member_user m) = uid) (guild_members g) = Some m"
    by auto
  then have "user_id (member_user m) = uid" by (auto simp: find_Some_iff)
  with m show ?thesis by (simp add: members_fetch_def)
qed

lemma members_fetch_missing:
  assumes "uid \<notin> set (map (\<lambda>m. user_id (member_user m)) (guild_members g))"
  shows "members_fetch g uid = (Inl (UnknownMember uid), [FetchMember (guild_id g) uid])"
proof -
  from assms have "find (\<lambda>m. user_id (member_user m) = uid) (guild_members g) = None"
    by (auto simp: find_None_iff)
  then show ?thesis by (simp add: members_fetch_def)
qed

lemma warn_and_ban_present:
  assumes "contacts_present g"
  shows "warn_and_ban w g m =
     (Inr True,
      [FetchMember (guild_id g) aboveAverageJoe_id, FetchMember (guild_id g) frogmonkee_id,
       SendDM (user_id (member_user m)) aboveAverageJoe_id frogmonkee_id]
      @ (if dm_delivered w (user_id (member_user m)) then []
         else [Log (UnableToMessage (user_id (member_user m)))])
      @ [Ban (user_id (member_user m)),
         Log (if ban_executed w (user_id (member_user m))
              then AutoBanned (user_id (member_user m))
              else UnableToBan (user_id (member_user m)))])"
proof -
  from assms obtain a where a: "members_fetch g aboveAverageJoe_id
      = (Inr a, [FetchMember (guild_id g) aboveAverageJoe_id])"
      "user_id (member_user a) = aboveAverageJoe_id"
    using members_fetch_found[of aboveAverageJoe_id g] by (auto simp: contacts_present_def)
  from assms obtain f where f: "members_fetch g frogmonkee_id
      = (Inr f, [FetchMember (guild_id g) frogmonkee_id])"
      "user_id (member_user f) = frogmonkee_id"
    using members_fetch_found[of frogmonkee_id g] by (auto simp: contacts_present_def)
  show ?thesis by (simp add: warn_and_ban_def a f Let_def)
qed

lemma warn_and_ban_absent:
  assumes "\<not> contacts_present g"
  shows "\<exists>e t. warn_and_ban w g m = (Inl e, t) \<and> no_dm_or_ban t"
proof (cases "aboveAverageJoe_id \<in> set (map (\<lambda>m. user_id (member_user m)) (guild_members g))")
  case False
  then show ?thesis
    using members_fetch_missing[of aboveAverageJoe_id g]
    by (simp add: warn_and_ban_def Let_def no_dm_or_ban_def)
next
  case True
  then obtain a where a: "members_fetch g aboveAverageJoe_id
      = (Inr a, [FetchMember (guild_id g) aboveAverageJoe_id])"
    using members_fetch_found[of aboveAverageJoe_id g] by auto
  from True assms have "frogmonkee_id \<notin> set (map (\<lambda>m. user_id (member_user m)) (guild_members g))"
    by (simp add: contacts_present_def)
  then show ?thesis
    using members_fetch_missing[of frogmonkee_id g] a
    by (simp add: warn_and_ban_def Let_def no_dm_or_ban_def)
qed

lemma warn_and_ban_true_iff: "fst (warn_and_ban w g m) = Inr True \<longleftrightarrow> contacts_present g"
proof (cases "contacts_present g")
  case True
  then show ?thesis by (simp add: warn_and_ban_present)
next
  case False
  then show ?thesis using warn_and_ban_absent[OF False, of w m] by auto
qed

lemma run_match_trace:
  assumes "fst (skipUsernameSpamFilter w g m) = False" and "protection_configured w g"
    and "name_match U C w g m" and "contacts_present g"
  shows "runUsernameSpamFilter U C w g m =
     (Inr True,
      [FindOne ALLOWLIST_USER (user_id (member_user m)) (guild_id g),
       Find ALLOWLIST_ROLE (guild_id g),
       Find PROTECTED_ROLE (guild_id g),
       MembersWithRoles (guild_id g) (fst (getProtectedRolesForServer w g)),
       FetchMember (guild_id g) aboveAverageJoe_id,
       FetchMember (guild_id g) frogmonkee_id,
       SendDM (user_id (member_user m)) aboveAverageJoe_id frogmonkee_id]
      @ (if dm_delivered w (user_id (member_user m)) then []
         else [Log (UnableToMessage (user_id (member_user m)))])
      @ [Ban (user_id (member_user m)),
         Log (if ban_executed w (user_id (member_user m))
              then AutoBanned (user_id (member_user m))
              else UnableToBan (user_id (member_user m)))])"
proof -
  from assms(1) have s: "snd (skipUsernameSpamFilter w g m)
      = [FindOne ALLOWLIST_USER (user_id (member_user m)) (guild_id g),
         Find ALLOWLIST_ROLE (guild_id g)]"
    by (simp add: skip_cases split: if_splits)
  show ?thesis
    by (simp add: run_evaluated[OF assms(1,2)] assms(3) warn_and_ban_present[OF assms(4)] s)
qed

subsection \<open>The store\<close>

lemma insert_unordered_fst:
  "fst (insert_unordered coll (d # ds)) =
     (if config_key d \<in> set (map config_key coll) then fst (insert_unordered coll ds)
      else fst (insert_unordered (coll @ [d]) ds))"
  by (simp add: split_beta)

lemma insert_unordered_snd:
  "snd (insert_unordered coll (d # ds)) =
     (if config_key d \<in> set (map config_key coll) then d # snd (insert_unordered coll ds)
      else snd (insert_unordered (coll @ [d]) ds))"
  by (simp add: split_beta)

lemma insert_unordered_keys:
  "set (map config_key (fst (insert_unordered coll docs)))
     = set (map config_key coll) \<union> set (map config_key docs)"
proof (induction docs arbitrary: coll)
  case Nil
  then show ?case by simp
next
  case (Cons d ds)
  show ?case
    unfolding insert_unordered_fst using Cons.IH[of coll] Cons.IH[of "coll @ [d]"] by auto
qed

lemma insert_unordered_distinct:
  "distinct (map config_key coll) \<Longrightarrow> distinct (map config_key (fst (insert_unordered coll docs)))"
proof (induction docs arbitrary: coll)
  case Nil
  then show ?case by simp
next
  case (Cons d ds)
  show ?case
    unfolding insert_unordered_fst
    using Cons.IH[of coll] Cons.IH[of "coll @ [d]"] Cons.prems by auto
qed

lemma insert_unordered_extends:
  "\<exists>new. fst (insert_unordered coll docs) = coll @ new"
proof (induction docs arbitrary: coll)
  case Nil
  then show ?case by simp
next
  case (Cons d ds)
  show ?case
    unfolding insert_unordered_fst
    using Cons.IH[of coll] Cons.IH[of "coll @ [d]"] by auto
qed

lemma insert_unordered_rejected:
  "d \<in> set docs \<Longrightarrow> config_key d \<in> set (map config_key coll)
     \<Longrightarrow> snd (insert_unordered coll docs) \<noteq> []"
proof (induction docs arbitrary: coll)
  case Nil
  then show ?case by simp
next
  case (Cons x xs)
  show ?case
  proof (cases "config_key x \<in> set (map config_key coll)")
    case True
    then show ?thesis unfolding insert_unordered_snd by simp
  next
    case False
    with Cons.prems have "d \<in> set xs" by auto
    moreover from Cons.prems(2) have "config_key d \<in> set (map config_key (coll @ [x]))" by simp
    ultimately have "snd (insert_unordered (coll @ [x]) xs) \<noteq> []" by (rule Cons.IH)
    with False show ?thesis unfolding insert_unordered_snd by simp
  qed
qed

lemma distinct_key_once:
  "distinct (map f xs) \<Longrightarrow> k \<in> set (map f xs) \<Longrightarrow> length (filter (\<lambda>x. f x = k) xs) = 1"
proof (induction xs)
  case Nil
  then show ?case by simp
next
  case (Cons x xs)
  show ?case
  proof (cases "f x = k")
    case True
    with Cons.prems have "filter (\<lambda>x. f x = k) xs = []"
      by (auto simp: filter_empty_conv image_iff)
    with True show ?thesis by simp
  next
    case False
    with Cons show ?thesis by auto
  qed
qed

lemma addRoles_shape:
  "addRolesToUsernameSpamFilter g coll roles objType =
     (Inr (),
      (if roles = [] then coll
       else fst (insert_unordered coll (map (\<lambda>role.
            \<lparr> objectType = objType,
              discordObjectId = role_id role,
              discordObjectName = role_name role,
              discordServerId = guild_id g,
              discordServerName = guild_name g \<rparr>) roles))),
      (if roles = [] then [FailedToStore]
       else if snd (insert_unordered coll (map (\<lambda>role.
            \<lparr> objectType = objType,
              discordObjectId = role_id role,
              discordObjectName = role_name role,
              discordServerId = guild_id g,
              discordServerName = guild_name g \<rparr>) roles)) = [] then []
       else [DupKeyFound, FailedToStore]))"
  by (simp add: addRolesToUsernameSpamFilter_def insertMany_def Let_def split: prod.splits)

lemma insert_unordered_none_rejected:
  "snd (insert_unordered coll docs) = [] \<longleftrightarrow>
     distinct (map config_key docs) \<and> set (map config_key docs) \<inter> set (map config_key coll) = {}"
proof (induction docs arbitrary: coll)
  case Nil
  then show ?case by simp
next
  case (Cons d ds)
  show ?case
  proof (cases "config_key d \<in> set (map config_key coll)")
    case True
    then show ?thesis unfolding insert_unordered_snd by auto
  next
    case False
    then show ?thesis unfolding insert_unordered_snd using Cons.IH[of "coll @ [d]"] by auto
  qed
qed

lemma addRoles_log:
  "snd (snd (addRolesToUsernameSpamFilter g coll roles objType)) =
     (if roles = [] then [FailedToStore]
      else if (\<exists>r \<in> set roles. new_key g objType r \<in> set (map config_key coll))
              \<or> \<not> distinct (map (new_key g objType) roles)
      then [DupKeyFound, FailedToStore] else [])"
proof -
  let ?docs = "map (\<lambda>role.
            \<lparr> objectType = objType,
              discordObjectId = role_id role,
              discordObjectName = role_name role,
              discordServerId = guild_id g,
              discordServerName = guild_name g \<rparr>) roles"
  have k: "map config_key ?docs = map (new_key g objType) roles"
    by (simp add: config_key_def new_key_def)
  have "snd (insert_unordered coll ?docs) = [] \<longleftrightarrow>
     \<not> ((\<exists>r \<in> set roles. new_key g objType r \<in> set (map config_key coll))
              \<or> \<not> distinct (map (new_key g objType) roles))"
    unfolding insert_unordered_none_rejected k by (auto simp: image_iff) metis
  then show ?thesis by (simp add: addRoles_shape)
qed

section \<open>The decision engine's verdict\<close>

text \<open>
  Claim C1: for a member that passes the skip check in a guild with a ProtectedRole
  record, the verdict is true if and only if the sanitized nickname (when set) or the
  sanitized username is among the sanitized display names of the protected members. The
  code departs from it at this input. The candidate's nickname is the fire emoji, the
  very nickname of a protected member; both sanitize to the empty string, which is
  therefore in the protected set, and the verdict is false: \<^verbatim>\<open>nickname && ...\<close>, meant
  for the \<^verbatim>\<open>null\<close> nickname, is false for the empty string too. The sibling test of the
  same line matches the empty string: a candidate whose username is the fire emoji gets
  the verdict true in the same guild.
\<close>

theorem empty_nickname_not_matched:
  "fst (skipUsernameSpamFilter (example_world [example_record PROTECTED_ROLE ''900''] True True)
          (example_guild [joe, fire_frog, fire_nick, fire_user]) fire_nick) = False
   \<and> protection_configured (example_world [example_record PROTECTED_ROLE ''900''] True True)
          (example_guild [joe, fire_frog, fire_nick, fire_user])
   \<and> nickname fire_nick = nickname fire_frog
   \<and> claimed_name_match excerpt_unicode Map.empty
          (example_world [example_record PROTECTED_ROLE ''900''] True True)
          (example_guild [joe, fire_frog, fire_nick, fire_user]) fire_nick
   \<and> fst (runUsernameSpamFilter excerpt_unicode Map.empty (example_world [example_record PROTECTED_ROLE ''900''] True True)
          (example_guild [joe, fire_frog, fire_nick, fire_user]) fire_nick) = Inr False
   \<and> fst (runUsernameSpamFilter excerpt_unicode Map.empty (example_world [example_record PROTECTED_ROLE ''900''] True True)
          (example_guild [joe, fire_frog, fire_nick, fire_user]) fire_user) = Inr True"
  by (simp add: example_defs unicode_defs engine_defs claim_defs)

text \<open>
  Claim C2. \<^verbatim>\<open>runUsernameSpamFilter\<close> returns false without looking at protected names
  when the member is not bannable, when an AllowlistUser record with the member's user id
  and the guild's id exists, or when the member holds a role that has an AllowlistRole
  record of the guild. The three tests are made in this order and the first that holds
  ends the run: the effects are exactly the reads made up to it and its log line.
\<close>

theorem skip_check_short_circuits:
  "(\<not> bannable m \<longrightarrow>
      runUsernameSpamFilter U C w g m
        = (Inr False, [Log (NotBannable (user_id (member_user m)))]))
   \<and> (bannable m \<and> on_user_allowlist w g m \<longrightarrow>
      runUsernameSpamFilter U C w g m
        = (Inr False, [FindOne ALLOWLIST_USER (user_id (member_user m)) (guild_id g),
                       Log (OnAllowlist (user_id (member_user m)))]))
   \<and> (bannable m \<and> \<not> on_user_allowlist w g m \<and> holds_allowlist_role w g m \<longrightarrow>
      runUsernameSpamFilter U C w g m
        = (Inr False, [FindOne ALLOWLIST_USER (user_id (member_user m)) (guild_id g),
                       Find ALLOWLIST_ROLE (guild_id g),
                       Log (RoleOnAllowlist (user_id (member_user m)))]))
   \<and> (\<not> bannable m \<or> on_user_allowlist w g m \<or> holds_allowlist_role w g m \<longrightarrow>
      fst (runUsernameSpamFilter U C w g m) = Inr False
      \<and> Find PROTECTED_ROLE (guild_id g) \<notin> set (snd (runUsernameSpamFilter U C w g m))
      \<and> no_dm_or_ban (snd (runUsernameSpamFilter U C w g m)))"
  by (simp add: runUsernameSpamFilter_def skip_cases no_dm_or_ban_def)

text \<open>
  An allowlisted candidate whose name matches a protected name is not banned.
\<close>

theorem skip_check_short_circuits_witness:
  "bannable impostor
   \<and> on_user_allowlist
        (example_world [example_record PROTECTED_ROLE ''900'', example_record ALLOWLIST_USER ''555''] True True)
        (example_guild [joe, frog, impostor]) impostor
   \<and> name_match excerpt_unicode Map.empty
        (example_world [example_record PROTECTED_ROLE ''900'', example_record ALLOWLIST_USER ''555''] True True)
        (example_guild [joe, frog, impostor]) impostor
   \<and> runUsernameSpamFilter excerpt_unicode Map.empty
        (example_world [example_record PROTECTED_ROLE ''900'', example_record ALLOWLIST_USER ''555''] True True)
        (example_guild [joe, frog, impostor]) impostor
      = (Inr False, [FindOne ALLOWLIST_USER ''555'' ''851552281249972254'', Log (OnAllowlist ''555'')])"
proof -
  let ?w = "example_world [example_record PROTECTED_ROLE ''900'', example_record ALLOWLIST_USER ''555''] True True"
  let ?g = "example_guild [joe, frog, impostor]"
  have b: "bannable impostor" by (simp add: example_defs)
  have a: "on_user_allowlist ?w ?g impostor" by (simp add: example_defs claim_defs)
  have n: "name_match excerpt_unicode Map.empty ?w ?g impostor"
    by (simp add: example_defs unicode_defs claim_defs)
  have "runUsernameSpamFilter excerpt_unicode Map.empty ?w ?g impostor
      = (Inr False, [FindOne ALLOWLIST_USER (user_id (member_user impostor)) (guild_id ?g),
                     Log (OnAllowlist (user_id (member_user impostor)))])"
    using skip_check_short_circuits[of impostor excerpt_unicode Map.empty ?w ?g] a b by blast
  then have "runUsernameSpamFilter excerpt_unicode Map.empty ?w ?g impostor
      = (Inr False, [FindOne ALLOWLIST_USER ''555'' ''851552281249972254'', Log (OnAllowlist ''555'')])"
    by (simp add: example_defs)
  with a b n show ?thesis by simp
qed

text \<open>
  Claim C3. For every member that passes the skip check, when the guild has no
  ProtectedRole record \<^verbatim>\<open>runUsernameSpamFilter\<close> returns false; it has read the three
  lists of the store and nothing else: role members are not resolved, no direct message
  is sent and no ban is called.
\<close>

theorem unconfigured_no_ban:
  assumes "fst (skipUsernameSpamFilter w g m) = False" and "\<not> protection_configured w g"
  shows "runUsernameSpamFilter U C w g m
     = (Inr False, [FindOne ALLOWLIST_USER (user_id (member_user m)) (guild_id g),
                    Find ALLOWLIST_ROLE (guild_id g),
                    Find PROTECTED_ROLE (guild_id g)])"
proof -
  from assms(1) have s: "skipUsernameSpamFilter w g m
      = (False, [FindOne ALLOWLIST_USER (user_id (member_user m)) (guild_id g),
                 Find ALLOWLIST_ROLE (guild_id g)])"
    by (simp add: skip_cases split: if_splits)
  obtain rs where p: "getProtectedRolesForServer w g = (rs, [Find PROTECTED_ROLE (guild_id g)])"
    using protected_roles_trace[of w g] by (cases "getProtectedRolesForServer w g") simp
  have "rs = []" using protected_roles_empty_iff[of w g] assms(2) p by simp
  then show ?thesis by (simp add: runUsernameSpamFilter_def s p)
qed

theorem unconfigured_no_ban_witness:
  "fst (skipUsernameSpamFilter (example_world [] True True) (example_guild [joe, frog, impostor]) impostor)
     = False
   \<and> \<not> protection_configured (example_world [] True True) (example_guild [joe, frog, impostor])
   \<and> runUsernameSpamFilter excerpt_unicode Map.empty (example_world [] True True)
        (example_guild [joe, frog, impostor]) impostor
      = (Inr False, [FindOne ALLOWLIST_USER ''555'' ''851552281249972254'',
                     Find ALLOWLIST_ROLE ''851552281249972254'',
                     Find PROTECTED_ROLE ''851552281249972254''])"
proof -
  let ?w = "example_world [] True True"
  let ?g = "example_guild [joe, frog, impostor]"
  have s: "fst (skipUsernameSpamFilter ?w ?g impostor) = False"
    by (simp add: example_defs engine_defs)
  have p: "\<not> protection_configured ?w ?g"
    by (simp add: example_defs claim_defs)
  from unconfigured_no_ban[OF s p, of excerpt_unicode Map.empty]
  have "runUsernameSpamFilter excerpt_unicode Map.empty ?w ?g impostor
      = (Inr False, [FindOne ALLOWLIST_USER ''555'' ''851552281249972254'',
                     Find ALLOWLIST_ROLE ''851552281249972254'',
                     Find PROTECTED_ROLE ''851552281249972254''])"
    by (simp add: example_defs)
  with s p show ?thesis by simp
qed

section \<open>The normalizer's pipeline\<close>

text \<open>
  Claim C4, as amended. For every input string and every Confusables table that has no
  entry for the two literal characters of the class (U+00CE, U+017E) and no empty entry,
  \<^verbatim>\<open>sanitizeUsername\<close> applies exactly the five steps in their order, the whitespace of
  step 3 being the class \<^verbatim>\<open>\s\<close>: the Unicode whitespace code points without U+0085, and
  U+FEFF.
\<close>

theorem sanitizeUsername_pipeline:
  assumes "table_within_class C"
  shows "sanitizeUsername U C s = spec_normalize ecma_white_space U C s"
proof -
  let ?n = "normalize_NFKC U s"
  let ?a = "filter (\<lambda>c. general_category U c \<noteq> So) ?n"
  let ?b = "filter (\<lambda>c. \<not> ecma_white_space c) ?a"
  have a: "replace_all (emojiRegex U) (\<lambda>_. []) ?n = ?a"
    by (simp add: replace_all_delete emojiRegex_def)
  have b: "replace_all whitespaceRegex (\<lambda>_. []) ?a = ?b"
    by (simp add: replace_all_delete whitespaceRegex_def is_space_ecma)
  have sub: "(if nonStandardCharsRegex U c then confusable_or_char C c else [c])
      = (if \<not> is_word c \<and> \<not> is_P U c \<and> \<not> is_S U c
         then (case C c of None \<Rightarrow> [c] | Some r \<Rightarrow> r) else [c])"
    if "\<not> ecma_white_space c" for c
  proof (cases "c = 206 \<or> c = 382")
    case True
    with assms have "C c = None" by (auto simp: table_within_class_def)
    with True show ?thesis by (auto simp: nonStandardCharsRegex_def)
  next
    case False
    from assms have "C c \<noteq> Some []" by (simp add: table_within_class_def)
    with False that show ?thesis
      by (auto simp: nonStandardCharsRegex_def confusable_or_char_def is_space_ecma
            split: option.splits)
  qed
  have c: "replace_all (nonStandardCharsRegex U) (confusable_or_char C) ?b =
      concat (map (\<lambda>c. if \<not> is_word c \<and> \<not> is_P U c \<and> \<not> is_S U c
                          then (case C c of None \<Rightarrow> [c] | Some r \<Rightarrow> r) else [c]) ?b)"
    unfolding replace_all_concat_map
    by (rule arg_cong[where f=concat], rule map_cong) (use sub in auto)
  show ?thesis
    unfolding sanitizeUsername_def spec_normalize_def a b c ..
qed

text \<open>
  The table maps U+00EE to "i"; the input has an emoji, a capital, a space, U+00EE,
  U+0085 and U+FEFF.
\<close>

theorem sanitizeUsername_pipeline_witness:
  "table_within_class (Map.empty(238 \<mapsto> ustr ''i''))
   \<and> sanitizeUsername excerpt_unicode (Map.empty(238 \<mapsto> ustr ''i''))
        [128293, 74, 32, 238, 133, 65279] = [106, 105, 133]
   \<and> spec_normalize ecma_white_space excerpt_unicode (Map.empty(238 \<mapsto> ustr ''i''))
        [128293, 74, 32, 238, 133, 65279] = [106, 105, 133]"
proof -
  have t: "table_within_class (Map.empty(238 \<mapsto> ustr ''i''))"
    by (simp add: table_within_class_def ustr_def)
  have e: "sanitizeUsername excerpt_unicode (Map.empty(238 \<mapsto> ustr ''i''))
        [128293, 74, 32, 238, 133, 65279] = [106, 105, 133]"
    by (simp add: unicode_defs ustr_def)
  from sanitizeUsername_pipeline[OF t, of excerpt_unicode "[128293, 74, 32, 238, 133, 65279]"] e
  have "spec_normalize ecma_white_space excerpt_unicode (Map.empty(238 \<mapsto> ustr ''i''))
        [128293, 74, 32, 238, 133, 65279] = [106, 105, 133]" by simp
  with t e show ?thesis by simp
qed

text \<open>
  Claim C4 as stated fails with the empty table: U+0085 is a whitespace code point and
  the code keeps it; U+FEFF is not one and the code removes it.
\<close>

theorem whitespace_class_counterexample:
  "unicode_white_space 133
   \<and> sanitizeUsername excerpt_unicode Map.empty [97, 133] = [97, 133]
   \<and> spec_normalize unicode_white_space excerpt_unicode Map.empty [97, 133] = [97]
   \<and> sanitizeUsername excerpt_unicode Map.empty [97, 133]
      \<noteq> spec_normalize unicode_white_space excerpt_unicode Map.empty [97, 133]
   \<and> \<not> unicode_white_space 65279
   \<and> sanitizeUsername excerpt_unicode Map.empty [97, 65279] = [97]
   \<and> spec_normalize unicode_white_space excerpt_unicode Map.empty [97, 65279] = [97, 65279]
   \<and> sanitizeUsername excerpt_unicode Map.empty [97, 65279]
      \<noteq> spec_normalize unicode_white_space excerpt_unicode Map.empty [97, 65279]"
  by (simp add: unicode_defs spec_normalize_def unicode_white_space_def)

text \<open>
  The first failure does not depend on the table. The two lemmas after it show what the
  hypothesis on the table is for: an entry for U+00CE is not used, an empty entry is not
  used.
\<close>

lemma next_line_kept_whatever_the_table:
  "sanitizeUsername excerpt_unicode C [97, 133] \<noteq> spec_normalize unicode_white_space excerpt_unicode C [97, 133]"
proof -
  have "confusable_or_char C 133 \<noteq> []"
    by (simp add: confusable_or_char_def split: option.splits)
  then have "length (sanitizeUsername excerpt_unicode C [97, 133]) \<ge> 2"
    by (cases "confusable_or_char C 133") (simp_all add: unicode_defs del: confusable_or_char_def)
  moreover have "spec_normalize unicode_white_space excerpt_unicode C [97, 133] = [97]"
    by (simp add: unicode_defs spec_normalize_def unicode_white_space_def)
  ultimately show ?thesis by auto
qed

lemma exempt_literal_not_substituted:
  "sanitizeUsername excerpt_unicode (Map.empty(206 \<mapsto> ustr ''I'')) [206] = [238]
   \<and> spec_normalize ecma_white_space excerpt_unicode (Map.empty(206 \<mapsto> ustr ''I'')) [206] = ustr ''i''"
  by (simp add: unicode_defs spec_normalize_def ecma_white_space_def unicode_white_space_def ustr_def)

lemma empty_entry_not_substituted:
  "sanitizeUsername excerpt_unicode (Map.empty(238 \<mapsto> [])) [238] = [238]
   \<and> spec_normalize ecma_white_space excerpt_unicode (Map.empty(238 \<mapsto> [])) [238] = []"
  by (simp add: unicode_defs spec_normalize_def ecma_white_space_def unicode_white_space_def)

text \<open>
  Claim C5, as amended. \<^verbatim>\<open>sanitizeUsername(sanitizeUsername(s))\<close> equals
  \<^verbatim>\<open>sanitizeUsername(s)\<close> for every string \<open>s\<close> whose normal form NFKC leaves unchanged
  and the substitution step leaves unchanged, on an engine whose lower-casing is
  idempotent and keeps a string free of Other Symbol and whitespace code points free of
  them, with a table whose entries are free of them.
\<close>

theorem sanitizeUsername_idempotent_on_stable_results:
  assumes "lower_well_behaved U" and "table_clean U C"
    and "normalize_NFKC U (sanitizeUsername U C s) = sanitizeUsername U C s"
    and "substitution_fixes U C (sanitizeUsername U C s)"
  shows "sanitizeUsername U C (sanitizeUsername U C s) = sanitizeUsername U C s"
proof -
  let ?t = "sanitizeUsername U C s"
  have cl: "clean U ?t" using assms(1,2) by (rule clean_sanitized)
  have low: "toLowerCase U ?t = ?t"
    using assms(1) by (simp add: sanitizeUsername_def lower_well_behaved_def)
  have "sanitizeUsername U C ?t
      = toLowerCase U (replace_all (nonStandardCharsRegex U) (confusable_or_char C)
          (replace_all whitespaceRegex (\<lambda>_. []) (replace_all (emojiRegex U) (\<lambda>_. []) ?t)))"
    unfolding sanitizeUsername_def[of U C ?t] assms(3) ..
  also have "\<dots> = toLowerCase U (replace_all (nonStandardCharsRegex U) (confusable_or_char C) ?t)"
    unfolding clean_unchanged[OF cl] ..
  also have "\<dots> = toLowerCase U ?t"
    unfolding substitution_fixed[OF assms(4)] ..
  also have "\<dots> = ?t" by (rule low)
  finally show ?thesis .
qed

theorem sanitizeUsername_idempotent_on_stable_results_witness:
  "lower_well_behaved excerpt_unicode
   \<and> table_clean excerpt_unicode (Map.empty(238 \<mapsto> ustr ''i''))
   \<and> sanitizeUsername excerpt_unicode (Map.empty(238 \<mapsto> ustr ''i'')) [128293, 74, 32, 238] = ustr ''ji''
   \<and> normalize_NFKC excerpt_unicode (ustr ''ji'') = ustr ''ji''
   \<and> substitution_fixes excerpt_unicode (Map.empty(238 \<mapsto> ustr ''i'')) (ustr ''ji'')
   \<and> sanitizeUsername excerpt_unicode (Map.empty(238 \<mapsto> ustr ''i'')) (ustr ''ji'') = ustr ''ji''"
proof -
  let ?C = "Map.empty(238 \<mapsto> ustr ''i'')"
  have l: "lower_well_behaved excerpt_unicode" by (rule excerpt_lower_well_behaved)
  have t: "table_clean excerpt_unicode ?C"
    by (simp add: table_clean_def clean_def unicode_defs ustr_def)
  have e: "sanitizeUsername excerpt_unicode ?C [128293, 74, 32, 238] = ustr ''ji''"
    by (simp add: unicode_defs ustr_def)
  have n: "normalize_NFKC excerpt_unicode (ustr ''ji'') = ustr ''ji''"
    by (simp add: excerpt_unicode_def ustr_def)
  have f: "substitution_fixes excerpt_unicode ?C (ustr ''ji'')"
    by (simp add: substitution_fixes_def unicode_defs ustr_def)
  from sanitizeUsername_idempotent_on_stable_results[OF l t, of "[128293, 74, 32, 238]"] e n f
  have "sanitizeUsername excerpt_unicode ?C (ustr ''ji'') = ustr ''ji''" by simp
  with l t e n f show ?thesis by simp
qed

text \<open>
  Claim C5 as stated fails with the empty table: removing the space of "e", space,
  U+0301 brings the accent next to the letter, and the NFKC of the second pass composes
  them into U+00E9.
\<close>

theorem not_idempotent_counterexample:
  "sanitizeUsername excerpt_unicode Map.empty [101, 32, 769] = [101, 769]
   \<and> sanitizeUsername excerpt_unicode Map.empty
        (sanitizeUsername excerpt_unicode Map.empty [101, 32, 769]) = [233]
   \<and> sanitizeUsername excerpt_unicode Map.empty
        (sanitizeUsername excerpt_unicode Map.empty [101, 32, 769])
      \<noteq> sanitizeUsername excerpt_unicode Map.empty [101, 32, 769]"
  by (simp add: unicode_defs)

text \<open>
  What the hypothesis on the substitution step is for: U+00CE is exempt and is
  lower-cased to U+00EE, which a second pass substitutes when the table has an entry for
  it.
\<close>

lemma substituted_on_second_pass:
  "sanitizeUsername excerpt_unicode (Map.empty(238 \<mapsto> ustr ''i'')) [206] = [238]
   \<and> sanitizeUsername excerpt_unicode (Map.empty(238 \<mapsto> ustr ''i'')) [238] = ustr ''i''"
  by (simp add: unicode_defs ustr_def)


text \<open>
  Claim C6, as amended. Normalization is whitespace-insensitive in that two strings
  whose NFKC forms agree once the \<^verbatim>\<open>\s\<close> code points are dropped have the same normal
  form. On ASCII text (printable ASCII and ASCII whitespace), on an engine that treats
  ASCII as Unicode prescribes and whatever the table holds, the normal form is the
  string without its whitespace and with \<^verbatim>\<open>A-Z\<close> lower-cased, so that normalization is
  case- and whitespace-insensitive there; in particular \<^verbatim>\<open>sanitizeUsername("J o e")\<close>
  equals \<^verbatim>\<open>sanitizeUsername("joe")\<close> and \<^verbatim>\<open>sanitizeUsername("JOE")\<close> equals
  \<^verbatim>\<open>sanitizeUsername("joe")\<close>.
\<close>

theorem sanitizeUsername_case_whitespace_insensitive:
  "(filter (\<lambda>c. \<not> is_space c) (normalize_NFKC U s)
      = filter (\<lambda>c. \<not> is_space c) (normalize_NFKC U t)
      \<longrightarrow> sanitizeUsername U C s = sanitizeUsername U C t)
   \<and> (ascii_conformant U \<and> ascii_text s \<longrightarrow> sanitizeUsername U C s = ascii_fold s)
   \<and> (ascii_conformant U \<and> ascii_text s \<and> ascii_text t \<and> ascii_fold s = ascii_fold t
      \<longrightarrow> sanitizeUsername U C s = sanitizeUsername U C t)
   \<and> (ascii_conformant U
      \<longrightarrow> sanitizeUsername U C (ustr ''J o e'') = sanitizeUsername U C (ustr ''joe'')
        \<and> sanitizeUsername U C (ustr ''JOE'') = sanitizeUsername U C (ustr ''joe''))"
proof -
  have a: "ascii_text (ustr ''J o e'')" "ascii_text (ustr ''JOE'')" "ascii_text (ustr ''joe'')"
    by (simp_all add: ascii_text_def ustr_def)
  have f: "ascii_fold (ustr ''J o e'') = ascii_fold (ustr ''joe'')"
          "ascii_fold (ustr ''JOE'') = ascii_fold (ustr ''joe'')"
    by (simp_all add: ascii_fold_def ascii_lower_def ustr_def)
  show ?thesis
    using sanitize_whitespace_blind[of U s t C] a f
    by (auto simp: sanitize_ascii_text)
qed

theorem sanitizeUsername_case_whitespace_insensitive_witness:
  "ascii_conformant excerpt_unicode
   \<and> filter (\<lambda>c. \<not> is_space c) (normalize_NFKC excerpt_unicode [233, 32, 97])
      = filter (\<lambda>c. \<not> is_space c) (normalize_NFKC excerpt_unicode [233, 97])
   \<and> sanitizeUsername excerpt_unicode Map.empty [233, 32, 97]
      = sanitizeUsername excerpt_unicode Map.empty [233, 97]
   \<and> ascii_text (ustr ''J o e'')
   \<and> sanitizeUsername excerpt_unicode Map.empty (ustr ''J o e'') = ustr ''joe''
   \<and> sanitizeUsername excerpt_unicode Map.empty (ustr ''JOE'')
      = sanitizeUsername excerpt_unicode Map.empty (ustr ''joe'')"
proof -
  have u: "ascii_conformant excerpt_unicode" by (rule excerpt_unicode_ascii_conformant)
  have w: "filter (\<lambda>c. \<not> is_space c) (normalize_NFKC excerpt_unicode [233, 32, 97])
      = filter (\<lambda>c. \<not> is_space c) (normalize_NFKC excerpt_unicode [233, 97])"
    by (simp add: excerpt_unicode_def is_space_def)
  have a: "ascii_text (ustr ''J o e'')" by (simp add: ascii_text_def ustr_def)
  have f: "ascii_fold (ustr ''J o e'') = ustr ''joe''"
    by (simp add: ascii_fold_def ascii_lower_def ustr_def)
  from sanitizeUsername_case_whitespace_insensitive[of excerpt_unicode "[233, 32, 97]" "[233, 97]" Map.empty] w
  have 1: "sanitizeUsername excerpt_unicode Map.empty [233, 32, 97]
      = sanitizeUsername excerpt_unicode Map.empty [233, 97]" by blast
  from sanitizeUsername_case_whitespace_insensitive[of excerpt_unicode "ustr ''J o e''" "ustr ''joe''" Map.empty] u a f
  have 2: "sanitizeUsername excerpt_unicode Map.empty (ustr ''J o e'') = ustr ''joe''"
    and 3: "sanitizeUsername excerpt_unicode Map.empty (ustr ''JOE'')
      = sanitizeUsername excerpt_unicode Map.empty (ustr ''joe'')" by auto
  from u w 1 a 2 3 show ?thesis by blast
qed

text \<open>
  Claim C6 as stated, for all strings, fails with the empty table: "e", space, U+0301
  and "e", U+0301 differ by a space only and have different normal forms (NFKC, applied
  before the space is removed, composes the second only); "a", U+0085 differs from "a" by
  a whitespace code point that the code keeps; and U+00DF, whose upper case is "SS", is
  its own lower case, so that it and "SS" differ in case only and have different normal
  forms.
\<close>

theorem whitespace_sensitive_counterexample:
  "filter (\<lambda>c. \<not> is_space c) [101, 32, 769] = [101, 769]
   \<and> sanitizeUsername excerpt_unicode Map.empty [101, 32, 769] = [101, 769]
   \<and> sanitizeUsername excerpt_unicode Map.empty [101, 769] = [233]
   \<and> sanitizeUsername excerpt_unicode Map.empty [101, 32, 769]
      \<noteq> sanitizeUsername excerpt_unicode Map.empty [101, 769]
   \<and> unicode_white_space 133
   \<and> sanitizeUsername excerpt_unicode Map.empty [97, 133] = [97, 133]
   \<and> sanitizeUsername excerpt_unicode Map.empty [97] = [97]
   \<and> sanitizeUsername excerpt_unicode Map.empty [97, 133]
      \<noteq> sanitizeUsername excerpt_unicode Map.empty [97]
   \<and> sanitizeUsername excerpt_unicode Map.empty [223] = [223]
   \<and> sanitizeUsername excerpt_unicode Map.empty (ustr ''SS'') = ustr ''ss''
   \<and> sanitizeUsername excerpt_unicode Map.empty [223]
      \<noteq> sanitizeUsername excerpt_unicode Map.empty (ustr ''SS'')"
  by (simp add: unicode_defs unicode_white_space_def ustr_def)

section \<open>Side effects of a match\<close>

text \<open>
  Claim C7: whenever a match occurs the warning is attempted before the ban, a failure of
  the warning does not prevent the ban, and true is returned whatever the two side effects
  do. The code departs from it at the first input: the guild does not have the first
  administrator contact among its members, the candidate's name matches, and the run ends
  at the fetch of the contact, with no warning, no ban and no verdict. At the second
  input both contacts are members, the warning and the ban both fail, and the run does
  what the claim says: warning, its failure logged, ban, its failure logged, true.
\<close>

theorem missing_contact_blocks_ban:
  "fst (skipUsernameSpamFilter (example_world [example_record PROTECTED_ROLE ''900''] True True) (example_guild [frog, impostor]) impostor) = False
   \<and> claimed_name_match excerpt_unicode Map.empty
          (example_world [example_record PROTECTED_ROLE ''900''] True True)
          (example_guild [frog, impostor]) impostor
   \<and> runUsernameSpamFilter excerpt_unicode Map.empty (example_world [example_record PROTECTED_ROLE ''900''] True True) (example_guild [frog, impostor]) impostor =
     (Inl (UnknownMember ''198981821147381760''),
      [FindOne ALLOWLIST_USER ''555'' ''851552281249972254'',
       Find ALLOWLIST_ROLE ''851552281249972254'',
       Find PROTECTED_ROLE ''851552281249972254'',
       MembersWithRoles ''851552281249972254'' [''900''],
       FetchMember ''851552281249972254'' ''198981821147381760''])
   \<and> runUsernameSpamFilter excerpt_unicode Map.empty
        (example_world [example_record PROTECTED_ROLE ''900''] False False)
        (example_guild [joe, frog, impostor]) impostor =
     (Inr True,
      [FindOne ALLOWLIST_USER ''555'' ''851552281249972254'',
       Find ALLOWLIST_ROLE ''851552281249972254'',
       Find PROTECTED_ROLE ''851552281249972254'',
       MembersWithRoles ''851552281249972254'' [''900''],
       FetchMember ''851552281249972254'' ''198981821147381760'',
       FetchMember ''851552281249972254'' ''197852493537869824'',
       SendDM ''555'' ''198981821147381760'' ''197852493537869824'',
       Log (UnableToMessage ''555''),
       Ban ''555'',
       Log (UnableToBan ''555'')])"
  by (simp add: example_defs unicode_defs engine_defs claim_defs)

section \<open>Configuring the store: best effort\<close>

text \<open>
  Claim C8. \<^verbatim>\<open>addRolesToUsernameSpamFilter\<close> submits one record per given role, unordered:
  it never throws; the stored records are kept, and afterwards the store holds the key
  (objectType, role, server) of every given role, whether or not some of the records were
  rejected as duplicates; a rejection is logged; and, the stored keys being distinct
  before, the store lists the key of every given role exactly once.
\<close>

theorem addRoles_best_effort:
  assumes "distinct (map config_key coll)"
  shows "fst (addRolesToUsernameSpamFilter g coll roles objType) = Inr ()
     \<and> (\<exists>new. fst (snd (addRolesToUsernameSpamFilter g coll roles objType)) = coll @ new)
     \<and> set (map config_key (fst (snd (addRolesToUsernameSpamFilter g coll roles objType))))
         = set (map config_key coll) \<union> set (map (new_key g objType) roles)
     \<and> (\<forall>r \<in> set roles.
          length (filter (\<lambda>d. config_key d = new_key g objType r)
                    (fst (snd (addRolesToUsernameSpamFilter g coll roles objType)))) = 1)
     \<and> ((\<exists>r \<in> set roles. new_key g objType r \<in> set (map config_key coll))
          \<or> \<not> distinct (map (new_key g objType) roles) \<longrightarrow>
          snd (snd (addRolesToUsernameSpamFilter g coll roles objType))
            = [DupKeyFound, FailedToStore])"
proof -
  let ?docs = "map (\<lambda>role.
            \<lparr> objectType = objType,
              discordObjectId = role_id role,
              discordObjectName = role_name role,
              discordServerId = guild_id g,
              discordServerName = guild_name g \<rparr>) roles"
  let ?coll' = "fst (snd (addRolesToUsernameSpamFilter g coll roles objType))"
  have k: "map config_key ?docs = map (new_key g objType) roles"
    by (simp add: config_key_def new_key_def)
  have c': "?coll' = fst (insert_unordered coll ?docs)"
    by (simp add: addRoles_shape)
  have keys: "set (map config_key ?coll')
      = set (map config_key coll) \<union> set (map (new_key g objType) roles)"
    unfolding c' insert_unordered_keys k ..
  have dist: "distinct (map config_key ?coll')"
    unfolding c' using assms by (rule insert_unordered_distinct)
  have once: "length (filter (\<lambda>d. config_key d = new_key g objType r) ?coll') = 1"
    if "r \<in> set roles" for r
    using dist
  proof (rule distinct_key_once)
    show "new_key g objType r \<in> set (map config_key ?coll')"
      unfolding keys using that by simp
  qed
  have dup: "snd (snd (addRolesToUsernameSpamFilter g coll roles objType))
      = [DupKeyFound, FailedToStore]"
    if "(\<exists>r \<in> set roles. new_key g objType r \<in> set (map config_key coll))
          \<or> \<not> distinct (map (new_key g objType) roles)"
  proof -
    from that have "roles \<noteq> []" by auto
    with that show ?thesis unfolding addRoles_log by simp
  qed
  have ext: "\<exists>new. ?coll' = coll @ new"
    unfolding c' by (rule insert_unordered_extends)
  have ret: "fst (addRolesToUsernameSpamFilter g coll roles objType) = Inr ()"
    by (simp add: addRoles_shape)
  show ?thesis
    using ret ext keys once dup by blast
qed

theorem addRoles_best_effort_witness:
  "distinct (map config_key [example_record PROTECTED_ROLE ''900''])
   \<and> addRolesToUsernameSpamFilter (example_guild []) [example_record PROTECTED_ROLE ''900'']
        [example_role ''900'', example_role ''901''] PROTECTED_ROLE
     = (Inr (), [example_record PROTECTED_ROLE ''900'', example_record PROTECTED_ROLE ''901''],
        [DupKeyFound, FailedToStore])
   \<and> length (filter (\<lambda>d. config_key d
                        = new_key (example_guild []) PROTECTED_ROLE (example_role ''900''))
        (fst (snd (addRolesToUsernameSpamFilter (example_guild [])
                     [example_record PROTECTED_ROLE ''900'']
                     [example_role ''900'', example_role ''901''] PROTECTED_ROLE)))) = 1"
proof -
  have d: "distinct (map config_key [example_record PROTECTED_ROLE ''900''])"
    by simp
  have e: "addRolesToUsernameSpamFilter (example_guild []) [example_record PROTECTED_ROLE ''900'']
        [example_role ''900'', example_role ''901''] PROTECTED_ROLE
     = (Inr (), [example_record PROTECTED_ROLE ''900'', example_record PROTECTED_ROLE ''901''],
        [DupKeyFound, FailedToStore])"
    by (simp add: addRolesToUsernameSpamFilter_def insertMany_def config_key_def example_defs)
  from addRoles_best_effort[OF d, of "example_guild []"
      "[example_role ''900'', example_role ''901'']" PROTECTED_ROLE]
  have "length (filter (\<lambda>d. config_key d
                        = new_key (example_guild []) PROTECTED_ROLE (example_role ''900''))
        (fst (snd (addRolesToUsernameSpamFilter (example_guild [])
                     [example_record PROTECTED_ROLE ''900'']
                     [example_role ''900'', example_role ''901''] PROTECTED_ROLE)))) = 1"
    by simp
  with d e show ?thesis by blast
qed

section \<open>The userUpdate handler: when the filter runs\<close>

text \<open>
  Claim C9, as amended. For every userUpdate event whose old and new user (fetched when
  partial) differ in their username, when the guild member of the new user is found and
  its guild passes \<^verbatim>\<open>isBanklessDAO\<close>, the handler runs \<^verbatim>\<open>runUsernameSpamFilter\<close> for that
  member: it gets the run's verdict and its effects are the run's, followed by a log line
  when the run threw. When the guild does not pass, or when the usernames are equal, the
  handler does nothing.
\<close>

theorem userUpdate_runs_filter:
  assumes "resolve_partial env oldUser = Inr old'" and "resolve_partial env newUser = Inr new'"
  shows "(username old' \<noteq> username new' \<and> getGuildMemberFromUser env new' = Inr (g, gm)
            \<and> isBanklessDAO env g \<longrightarrow>
            fst (execute U C w env oldUser newUser) = Some (fst (runUsernameSpamFilter U C w g gm))
            \<and> snd (execute U C w env oldUser newUser)
                = snd (runUsernameSpamFilter U C w g gm)
                  @ (case fst (runUsernameSpamFilter U C w g gm) of
                       Inl e \<Rightarrow> [Log FailedUserUpdate] | Inr b \<Rightarrow> []))
       \<and> (username old' \<noteq> username new' \<and> getGuildMemberFromUser env new' = Inr (g, gm)
            \<and> \<not> isBanklessDAO env g \<longrightarrow>
            execute U C w env oldUser newUser = (None, []))
       \<and> (username old' = username new' \<longrightarrow> execute U C w env oldUser newUser = (None, []))"
  using assms
  by (cases "runUsernameSpamFilter U C w g gm") (auto simp: execute_def split: sum.splits)

theorem userUpdate_runs_filter_witness:
  "resolve_partial (example_env (example_guild [joe, frog, impostor]) impostor True)
      (member_user (mk_member ''555'' (ustr ''bob'') None [] True))
     = Inr (member_user (mk_member ''555'' (ustr ''bob'') None [] True))
   \<and> resolve_partial (example_env (example_guild [joe, frog, impostor]) impostor True)
      (member_user impostor) = Inr (member_user impostor)
   \<and> username (member_user (mk_member ''555'' (ustr ''bob'') None [] True))
     \<noteq> username (member_user impostor)
   \<and> fst (execute excerpt_unicode Map.empty
        (example_world [example_record PROTECTED_ROLE ''900''] True True)
        (example_env (example_guild [joe, frog, impostor]) impostor True)
        (member_user (mk_member ''555'' (ustr ''bob'') None [] True))
        (member_user impostor))
      = Some (Inr True)"
proof -
  let ?env = "example_env (example_guild [joe, frog, impostor]) impostor True"
  let ?w = "example_world [example_record PROTECTED_ROLE ''900''] True True"
  let ?old = "member_user (mk_member ''555'' (ustr ''bob'') None [] True)"
  have o: "resolve_partial ?env ?old = Inr ?old"
    by (simp add: resolve_partial_def example_defs)
  have n: "resolve_partial ?env (member_user impostor) = Inr (member_user impostor)"
    by (simp add: resolve_partial_def example_defs)
  have u: "username ?old \<noteq> username (member_user impostor)"
    by (simp add: example_defs)
  have g: "getGuildMemberFromUser ?env (member_user impostor)
      = Inr (example_guild [joe, frog, impostor], impostor)"
    by (simp add: example_env_def)
  have b: "isBanklessDAO ?env (example_guild [joe, frog, impostor])"
    by (simp add: example_env_def)
  have r: "fst (runUsernameSpamFilter excerpt_unicode Map.empty ?w
      (example_guild [joe, frog, impostor]) impostor) = Inr True"
    by (simp add: example_defs unicode_defs engine_defs)
  from userUpdate_runs_filter[OF o n, of "example_guild [joe, frog, impostor]" impostor
      excerpt_unicode Map.empty ?w] u g b r
  have "fst (execute excerpt_unicode Map.empty ?w ?env ?old (member_user impostor)) = Some (Inr True)"
    by simp
  with o n u show ?thesis by simp
qed

text \<open>
  Claim C9 as stated fails twice. A user object carries no nickname: an event for a
  member whose nickname changed and whose username did not runs nothing. And an event
  with a changed username runs nothing when the guild does not pass \<^verbatim>\<open>isBanklessDAO\<close>.
\<close>

theorem userUpdate_counterexample:
  "nickname (mk_member ''555'' (ustr ''bob'') None [] True)
     \<noteq> nickname (mk_member ''555'' (ustr ''bob'') (Some (ustr ''Frogmonkee'')) [] True)
   \<and> execute excerpt_unicode Map.empty
        (example_world [example_record PROTECTED_ROLE ''900''] True True)
        (example_env (example_guild [joe, frog]) (mk_member ''555'' (ustr ''bob'') (Some (ustr ''Frogmonkee'')) [] True) True)
        (member_user (mk_member ''555'' (ustr ''bob'') None [] True))
        (member_user (mk_member ''555'' (ustr ''bob'') (Some (ustr ''Frogmonkee'')) [] True))
      = (None, [])
   \<and> username (member_user (mk_member ''555'' (ustr ''bob'') None [] True))
     \<noteq> username (member_user impostor)
   \<and> execute excerpt_unicode Map.empty
        (example_world [example_record PROTECTED_ROLE ''900''] True True)
        (example_env (example_guild [joe, frog, impostor]) impostor False)
        (member_user (mk_member ''555'' (ustr ''bob'') None [] True))
        (member_user impostor)
      = (None, [])"
  by (simp add: execute_def resolve_partial_def example_env_def example_defs)

section \<open>Empty canonical names\<close>

text \<open>
  Claim C10: a protected member whose display name sanitizes to the empty string and a
  candidate whose username sanitizes to the empty string are a match, and the candidate
  is banned with the verdict true. The matching is as the claim says, and with both
  administrator contacts in the guild the ban is called and true is returned (the second
  input). The code departs from the claim at the first input: the first contact is not a
  member, and the run ends at the fetch of the contact, with no ban and no verdict.
\<close>

theorem empty_names_match_blocked_by_fetch:
  "fst (skipUsernameSpamFilter (example_world [example_record PROTECTED_ROLE ''900''] True True) (example_guild [fire_frog, fire_user]) fire_user) = False
   \<and> holds_protected_role (example_world [example_record PROTECTED_ROLE ''900''] True True) (example_guild [fire_frog, fire_user]) fire_frog
   \<and> sanitizeUsername excerpt_unicode Map.empty (display_name fire_frog) = []
   \<and> sanitizeUsername excerpt_unicode Map.empty (username (member_user fire_user)) = []
   \<and> fst (runUsernameSpamFilter excerpt_unicode Map.empty (example_world [example_record PROTECTED_ROLE ''900''] True True)
          (example_guild [fire_frog, fire_user]) fire_user)
      = Inl (UnknownMember ''198981821147381760'')
   \<and> no_dm_or_ban (snd (runUsernameSpamFilter excerpt_unicode Map.empty (example_world [example_record PROTECTED_ROLE ''900''] True True)
          (example_guild [fire_frog, fire_user]) fire_user))
   \<and> fst (runUsernameSpamFilter excerpt_unicode Map.empty (example_world [example_record PROTECTED_ROLE ''900''] True True)
          (example_guild [joe, fire_frog, fire_user]) fire_user) = Inr True
   \<and> Ban ''557'' \<in> set (snd (runUsernameSpamFilter excerpt_unicode Map.empty (example_world [example_record PROTECTED_ROLE ''900''] True True)
          (example_guild [joe, fire_frog, fire_user]) fire_user))"
  by (simp add: example_defs unicode_defs engine_defs claim_defs)

end
